theory Spec2Isabelle
  imports Main
begin

section \<open>Python values and string primitives used by \<^verbatim>\<open>backend/server.py\<close>\<close>

text \<open>
  A Python \<^verbatim>\<open>str\<close> is modelled as a \<^typ>\<open>string\<close> whose characters are the code points
  below 256. Exceptions are values: a computation that may raise has type
  \<open>exn + 'a\<close>, with \<open>Inl\<close> the exception that was raised.
\<close>

datatype exn =
    ValueError string
  | TypeError string
  | SyntaxError string
  | OSError string
  | OtherError string

fun str_of :: "exn \<Rightarrow> string" where
  "str_of (ValueError m) = m"
| "str_of (TypeError m) = m"
| "str_of (SyntaxError m) = m"
| "str_of (OSError m) = m"
| "str_of (OtherError m) = m"

text \<open>
  The values that travel as JSON: request bodies (\<^verbatim>\<open>request.get_json()\<close>), decoded model
  output and response payloads (\<^verbatim>\<open>jsonify\<close>). A dict keeps its insertion order and has
  string keys; numbers are integers. Python values outside this shape (floats, sets,
  tuples, bytes, non-string keys) are not represented.
\<close>

datatype pyval =
    PNone
  | PBool bool
  | PInt int
  | PStr string
  | PList "pyval list"
  | PDict "(string \<times> pyval) list"

text \<open>\<^verbatim>\<open>d[k] = v\<close> on a dict: an existing key keeps its position, a new key goes last.\<close>

fun dict_set :: "(string \<times> pyval) list \<Rightarrow> string \<Rightarrow> pyval \<Rightarrow> (string \<times> pyval) list" where
  "dict_set [] k v = [(k, v)]"
| "dict_set ((k', v') # kvs) k v =
     (if k' = k then (k, v) # kvs else (k', v') # dict_set kvs k v)"

text \<open>\<^verbatim>\<open>str.isspace\<close> on one code point below 256.\<close>

definition isspace :: "char \<Rightarrow> bool" where
  "isspace c =
     (let n = (of_char c :: nat)
      in (9 \<le> n \<and> n \<le> 13) \<or> (28 \<le> n \<and> n \<le> 32) \<or> n = 133 \<or> n = 160)"

definition strip :: "string \<Rightarrow> string" where
  "strip s = rev (dropWhile isspace (rev (dropWhile isspace s)))"

text \<open>\<^verbatim>\<open>s.find(c)\<close> and \<^verbatim>\<open>s.rfind(c)\<close> for a one-character needle: the index, or -1.\<close>

definition str_find :: "char \<Rightarrow> string \<Rightarrow> int" where
  "str_find c s =
     (if c \<in> set s then int (length (takeWhile (\<lambda>x. x \<noteq> c) s)) else - 1)"

definition str_rfind :: "char \<Rightarrow> string \<Rightarrow> int" where
  "str_rfind c s =
     (if c \<in> set s
      then int (length s) - 1 - int (length (takeWhile (\<lambda>x. x \<noteq> c) (rev s)))
      else - 1)"

text \<open>
  \<^verbatim>\<open>xs[i:j]\<close> with integer bounds: a negative bound counts from the end, both bounds are
  clamped to the sequence, and an empty or inverted interval gives the empty sequence.
  Slicing never raises.
\<close>

definition slice_bound :: "nat \<Rightarrow> int \<Rightarrow> nat" where
  "slice_bound n i = (if i < 0 then nat (max (int n + i) 0) else min (nat i) n)"

definition py_slice :: "'a list \<Rightarrow> int \<Rightarrow> int \<Rightarrow> 'a list" where
  "py_slice xs i j =
     (let lo = slice_bound (length xs) i; hi = slice_bound (length xs) j
      in take (hi - lo) (drop lo xs))"

text \<open>Truthiness (\<^verbatim>\<open>not data\<close>), membership (\<^verbatim>\<open>k in data\<close>) and subscription (\<^verbatim>\<open>data[k]\<close>)
  with a string \<open>k\<close>, on each shape a JSON body can have.\<close>

fun truthy :: "pyval \<Rightarrow> bool" where
  "truthy PNone = False"
| "truthy (PBool b) = b"
| "truthy (PInt n) = (n \<noteq> 0)"
| "truthy (PStr s) = (s \<noteq> [])"
| "truthy (PList xs) = (xs \<noteq> [])"
| "truthy (PDict kvs) = (kvs \<noteq> [])"

fun is_prefix :: "string \<Rightarrow> string \<Rightarrow> bool" where
  "is_prefix [] ys = True"
| "is_prefix (x # xs) [] = False"
| "is_prefix (x # xs) (y # ys) = (x = y \<and> is_prefix xs ys)"

fun is_substr :: "string \<Rightarrow> string \<Rightarrow> bool" where
  "is_substr xs [] = (xs = [])"
| "is_substr xs (y # ys) = (is_prefix xs (y # ys) \<or> is_substr xs ys)"

fun contains :: "string \<Rightarrow> pyval \<Rightarrow> exn + bool" where
  "contains k (PDict kvs) = Inr (k \<in> set (map fst kvs))"
| "contains k (PList xs) = Inr (PStr k \<in> set xs)"
| "contains k (PStr s) = Inr (is_substr k s)"
| "contains k PNone = Inl (TypeError ''argument of type NoneType is not iterable'')"
| "contains k (PBool b) = Inl (TypeError ''argument of type bool is not iterable'')"
| "contains k (PInt n) = Inl (TypeError ''argument of type int is not iterable'')"

fun getitem :: "pyval \<Rightarrow> string \<Rightarrow> exn + pyval" where
  "getitem (PDict kvs) k =
     (case map_of kvs k of None \<Rightarrow> Inl (OtherError k) | Some v \<Rightarrow> Inr v)"
| "getitem (PList xs) k = Inl (TypeError ''list indices must be integers or slices, not str'')"
| "getitem (PStr s) k = Inl (TypeError ''string indices must be integers'')"
| "getitem v k = Inl (TypeError ''object is not subscriptable'')"

text \<open>\<^verbatim>\<open>v.strip()\<close> on a JSON value: only a string has the method.\<close>

fun strip_val :: "pyval \<Rightarrow> exn + string" where
  "strip_val (PStr s) = Inr (strip s)"
| "strip_val v = Inl (OtherError ''object has no attribute strip'')"

text \<open>An HTTP response: the status code and the JSON payload.\<close>

record response =
  status :: nat
  body :: pyval

definition error_body :: "string \<Rightarrow> pyval" where
  "error_body msg = PDict [(''error'', PStr msg)]"

section \<open>A model of \<^verbatim>\<open>ast.literal_eval\<close> on JSON-shaped Python literals\<close>

text \<open>
  The library function is modelled on a fragment of Python's literal syntax: dict and
  list displays (a trailing comma allowed), string literals in single or double quotes
  without escapes, decimal integers and names. As in the library, the text is parsed
  first (\<open>tokenize\<close>, \<open>parse_expr\<close>) and the syntax tree is then converted
  (\<open>convert\<close>): the names \<^verbatim>\<open>True\<close>, \<^verbatim>\<open>False\<close> and \<^verbatim>\<open>None\<close> are constants, and any
  other name (\<^verbatim>\<open>true\<close>, \<^verbatim>\<open>false\<close>, \<^verbatim>\<open>null\<close>, ...) raises \<^verbatim>\<open>ValueError\<close> with a message that
  starts \<^verbatim>\<open>malformed node or string\<close> (the rest of the message, the node's address, is not
  modelled). \<open>None\<close> marks a text outside the fragment, about which the model says
  nothing.
\<close>

datatype token =
    TLBrace | TRBrace | TLBrack | TRBrack | TColon | TComma
  | TStr string | TNum nat | TName string

definition is_digit :: "char \<Rightarrow> bool" where
  "is_digit c = (let n = (of_char c :: nat) in 48 \<le> n \<and> n \<le> 57)"

definition is_name_start :: "char \<Rightarrow> bool" where
  "is_name_start c =
     (let n = (of_char c :: nat)
      in (65 \<le> n \<and> n \<le> 90) \<or> (97 \<le> n \<and> n \<le> 122) \<or> n = 95)"

definition is_name_char :: "char \<Rightarrow> bool" where
  "is_name_char c = (is_name_start c \<or> is_digit c)"

definition plain_char :: "char \<Rightarrow> bool" where
  "plain_char c = (32 \<le> (of_char c :: nat) \<and> c \<noteq> CHR 0x5C)"

definition nat_of_digits :: "string \<Rightarrow> nat" where
  "nat_of_digits ds = foldl (\<lambda>n c. 10 * n + (of_char c - 48)) 0 ds"

text \<open>CPython's default \<^verbatim>\<open>sys.int_info.default_max_str_digits\<close>.\<close>

definition int_max_str_digits :: nat where
  "int_max_str_digits = 4300"

definition py_keywords :: "string list" where
  "py_keywords =
     [''and'', ''as'', ''assert'', ''async'', ''await'', ''break'', ''class'', ''continue'',
      ''def'', ''del'', ''elif'', ''else'', ''except'', ''finally'', ''for'', ''from'',
      ''global'', ''if'', ''import'', ''in'', ''is'', ''lambda'', ''nonlocal'', ''not'',
      ''or'', ''pass'', ''raise'', ''return'', ''try'', ''while'', ''with'', ''yield'']"

function tokenize :: "string \<Rightarrow> token list option" where
  "tokenize [] = Some []"
| "tokenize (c # cs) =
     (if c = CHR '' '' \<or> c = CHR 0x09 \<or> c = CHR 0x0A then tokenize cs
      else if c = CHR ''{'' then map_option ((#) TLBrace) (tokenize cs)
      else if c = CHR ''}'' then map_option ((#) TRBrace) (tokenize cs)
      else if c = CHR ''['' then map_option ((#) TLBrack) (tokenize cs)
      else if c = CHR '']'' then map_option ((#) TRBrack) (tokenize cs)
      else if c = CHR '':'' then map_option ((#) TColon) (tokenize cs)
      else if c = CHR '','' then map_option ((#) TComma) (tokenize cs)
      else if c = CHR 0x22 \<or> c = CHR 0x27 then
        (let lit = takeWhile (\<lambda>x. x \<noteq> c) cs
         in if \<not> list_all plain_char lit then None
            else case dropWhile (\<lambda>x. x \<noteq> c) cs of
                   [] \<Rightarrow> None
                 | q # rest \<Rightarrow> map_option ((#) (TStr lit)) (tokenize rest))
      else if is_digit c then
        (let ds = c # takeWhile is_digit cs
         in if (c = CHR ''0'' \<and> ds \<noteq> [c]) \<or> int_max_str_digits < length ds then None
            else map_option ((#) (TNum (nat_of_digits ds))) (tokenize (dropWhile is_digit cs)))
      else if is_name_start c then
        (let nm = c # takeWhile is_name_char cs
         in if nm \<in> set py_keywords then None
            else map_option ((#) (TName nm)) (tokenize (dropWhile is_name_char cs)))
      else None)"
  by pat_completeness auto
termination
proof (relation "measure length", goal_cases)
  case 1
  show ?case by simp
next
  case (9 c cs lit q rest)
  have "length (dropWhile (\<lambda>x. x \<noteq> c) cs) \<le> length cs"
    by (rule length_dropWhile_le)
  with 9 show ?case by simp
qed (simp_all add: length_dropWhile_le le_imp_less_Suc)

datatype expr =
    EStr string | ENum nat | EName string
  | EList "expr list" | EDict "(expr \<times> expr) list"

text \<open>Recursive descent over the tokens; the first argument bounds the nesting depth
  and \<open>parse_expr\<close> starts it above the number of tokens.\<close>

fun parse_value :: "nat \<Rightarrow> token list \<Rightarrow> (expr \<times> token list) option"
  and parse_items :: "nat \<Rightarrow> expr list \<Rightarrow> token list \<Rightarrow> (expr \<times> token list) option"
  and parse_pairs ::
    "nat \<Rightarrow> (expr \<times> expr) list \<Rightarrow> token list \<Rightarrow> (expr \<times> token list) option"
where
  "parse_value 0 ts = None"
| "parse_value (Suc n) [] = None"
| "parse_value (Suc n) (TStr s # ts) = Some (EStr s, ts)"
| "parse_value (Suc n) (TNum k # ts) = Some (ENum k, ts)"
| "parse_value (Suc n) (TName x # ts) = Some (EName x, ts)"
| "parse_value (Suc n) (TLBrack # ts) = parse_items n [] ts"
| "parse_value (Suc n) (TLBrace # ts) = parse_pairs n [] ts"
| "parse_value (Suc n) (t # ts) = None"
| "parse_items 0 acc ts = None"
| "parse_items (Suc n) acc (TRBrack # ts) = Some (EList (rev acc), ts)"
| "parse_items (Suc n) acc ts =
     (case parse_value n ts of
        Some (v, TComma # r) \<Rightarrow> parse_items n (v # acc) r
      | Some (v, TRBrack # r) \<Rightarrow> Some (EList (rev (v # acc)), r)
      | _ \<Rightarrow> None)"
| "parse_pairs 0 acc ts = None"
| "parse_pairs (Suc n) acc (TRBrace # ts) = Some (EDict (rev acc), ts)"
| "parse_pairs (Suc n) acc ts =
     (case parse_value n ts of
        Some (k, TColon # r) \<Rightarrow>
          (case parse_value n r of
             Some (v, TComma # r') \<Rightarrow> parse_pairs n ((k, v) # acc) r'
           | Some (v, TRBrace # r') \<Rightarrow> Some (EDict (rev ((k, v) # acc)), r')
           | _ \<Rightarrow> None)
      | _ \<Rightarrow> None)"

definition parse_expr :: "token list \<Rightarrow> expr option" where
  "parse_expr ts =
     (case parse_value (Suc (length ts)) ts of
        Some (e, []) \<Rightarrow> Some e
      | _ \<Rightarrow> None)"

definition malformed :: exn where
  "malformed = ValueError ''malformed node or string''"

text \<open>A dict key of the fragment is a string literal; a name that is not a constant
  raises as everywhere else; any other key is outside the fragment.\<close>

fun convert_key :: "expr \<Rightarrow> (exn + string) option" where
  "convert_key (EStr s) = Some (Inr s)"
| "convert_key (EName x) =
     (if x = ''True'' \<or> x = ''False'' \<or> x = ''None'' then None else Some (Inl malformed))"
| "convert_key e = None"

text \<open>Conversion goes left to right (in a dict: key, value, key, value, ...) and stops at
  the first exception; a repeated key keeps its first position and its last value.\<close>

fun convert :: "expr \<Rightarrow> (exn + pyval) option"
  and convert_list :: "expr list \<Rightarrow> (exn + pyval list) option"
  and convert_pairs ::
    "(expr \<times> expr) list \<Rightarrow> (string \<times> pyval) list \<Rightarrow> (exn + (string \<times> pyval) list) option"
where
  "convert (EStr s) = Some (Inr (PStr s))"
| "convert (ENum k) = Some (Inr (PInt (int k)))"
| "convert (EName x) =
     (if x = ''True'' then Some (Inr (PBool True))
      else if x = ''False'' then Some (Inr (PBool False))
      else if x = ''None'' then Some (Inr PNone)
      else Some (Inl malformed))"
| "convert (EList es) = map_option (map_sum id PList) (convert_list es)"
| "convert (EDict kvs) = map_option (map_sum id PDict) (convert_pairs kvs [])"
| "convert_list [] = Some (Inr [])"
| "convert_list (e # es) =
     (case convert e of
        None \<Rightarrow> None
      | Some (Inl x) \<Rightarrow> Some (Inl x)
      | Some (Inr v) \<Rightarrow> map_option (map_sum id ((#) v)) (convert_list es))"
| "convert_pairs [] acc = Some (Inr acc)"
| "convert_pairs ((k, e) # kvs) acc =
     (case convert_key k of
        None \<Rightarrow> None
      | Some (Inl x) \<Rightarrow> Some (Inl x)
      | Some (Inr s) \<Rightarrow>
          (case convert e of
             None \<Rightarrow> None
           | Some (Inl x) \<Rightarrow> Some (Inl x)
           | Some (Inr v) \<Rightarrow> convert_pairs kvs (dict_set acc s v)))"

definition literal_eval_fragment :: "string \<Rightarrow> (exn + pyval) option" where
  "literal_eval_fragment s =
     (case tokenize s of
        None \<Rightarrow> None
      | Some ts \<Rightarrow> (case parse_expr ts of None \<Rightarrow> None | Some e \<Rightarrow> convert e))"

text \<open>The decoder used where a concrete one is needed. It answers as the library does on
  the fragment; outside it the answer is a placeholder exception and is not to be read
  as the library's.\<close>

definition ast_literal_eval :: "string \<Rightarrow> exn + pyval" where
  "ast_literal_eval s =
     (case literal_eval_fragment s of
        None \<Rightarrow> Inl (OtherError ''outside the modelled fragment'')
      | Some r \<Rightarrow> r)"

section \<open>Response parser (\<^verbatim>\<open>parse_json_response\<close>) and \<^verbatim>\<open>/evaluate-answer\<close>\<close>

text \<open>
  \<^verbatim>\<open>ast.literal_eval\<close> is library code; \<open>parse_json_response\<close> takes it as the parameter
  \<open>literal_eval\<close>, returning the decoded value or the exception raised.
\<close>

type_synonym decoder = "string \<Rightarrow> exn + pyval"

definition fallback :: "string \<Rightarrow> string \<Rightarrow> pyval" where
  "fallback err text =
     PDict [(''score'', PInt 0),
            (''feedback'', PStr ''Could not parse evaluation''),
            (''error'', PStr err),
            (''original_response'', PStr text)]"

text \<open>The body of the \<^verbatim>\<open>try\<close> block of \<open>parse_json_response\<close>.\<close>

definition parse_json_try :: "decoder \<Rightarrow> string \<Rightarrow> exn + pyval" where
  "parse_json_try literal_eval text =
     (let start = str_find (CHR ''{'') text;
          endp = str_rfind (CHR ''}'') text + 1
      in if start = - 1 \<or> endp = 0
         then Inl (ValueError ''No JSON found in response'')
         else literal_eval (py_slice text start endp))"

definition parse_json_response :: "decoder \<Rightarrow> string \<Rightarrow> pyval" where
  "parse_json_response literal_eval text =
     (case parse_json_try literal_eval text of
        Inl e \<Rightarrow> fallback (str_of e) text
      | Inr v \<Rightarrow> v)"

text \<open>
  \<open>evaluate_answer\<close>. Its inputs: \<open>get_json\<close> is the outcome of \<^verbatim>\<open>request.get_json()\<close>,
  \<open>generated\<close> the outcome of \<^verbatim>\<open>model.generate_content(prompt)\<close> followed by \<^verbatim>\<open>.text\<close>
  (the external model's reply is an input; the prompt text is not modelled), \<open>now\<close> the
  value of \<^verbatim>\<open>datetime.datetime.now().isoformat()\<close>.
\<close>

fun set_timestamp :: "pyval \<Rightarrow> string \<Rightarrow> exn + pyval" where
  "set_timestamp (PDict kvs) now = Inr (PDict (dict_set kvs ''timestamp'' (PStr now)))"
| "set_timestamp v now = Inl (TypeError ''object does not support item assignment'')"

definition missing_field :: "pyval \<Rightarrow> string \<Rightarrow> string \<Rightarrow> exn + bool" where
  "missing_field data k1 k2 =
     (if \<not> truthy data then Inr True
      else case contains k1 data of
             Inl e \<Rightarrow> Inl e
           | Inr False \<Rightarrow> Inr True
           | Inr True \<Rightarrow>
               (case contains k2 data of
                  Inl e \<Rightarrow> Inl e
                | Inr b \<Rightarrow> Inr (\<not> b)))"

definition evaluate_answer_try ::
  "decoder \<Rightarrow> string \<Rightarrow> exn + pyval \<Rightarrow> exn + string \<Rightarrow> exn + response" where
  "evaluate_answer_try literal_eval now get_json generated =
     (case get_json of
        Inl e \<Rightarrow> Inl e
      | Inr data \<Rightarrow>
          (case missing_field data ''student_answer'' ''model_answer'' of
             Inl e \<Rightarrow> Inl e
           | Inr True \<Rightarrow> Inr \<lparr>status = 400, body = error_body ''Missing required fields''\<rparr>
           | Inr False \<Rightarrow>
               (case getitem data ''student_answer'' of
                  Inl e \<Rightarrow> Inl e
                | Inr sa \<Rightarrow>
                    (case getitem data ''model_answer'' of
                       Inl e \<Rightarrow> Inl e
                     | Inr ma \<Rightarrow>
                         (case generated of
                            Inl e \<Rightarrow> Inl e
                          | Inr text \<Rightarrow>
                              (case set_timestamp (parse_json_response literal_eval text) now of
                                 Inl e \<Rightarrow> Inl e
                               | Inr evaluation \<Rightarrow>
                                   Inr \<lparr>status = 200, body = evaluation\<rparr>))))))"

definition evaluate_answer ::
  "decoder \<Rightarrow> string \<Rightarrow> exn + pyval \<Rightarrow> exn + string \<Rightarrow> response" where
  "evaluate_answer literal_eval now get_json generated =
     (case evaluate_answer_try literal_eval now get_json generated of
        Inl e \<Rightarrow>
          \<lparr>status = 500,
           body = PDict [(''score'', PInt 0),
                         (''feedback'', PStr ''Evaluation failed''),
                         (''error'', PStr (str_of e)),
                         (''timestamp'', PStr now)]\<rparr>
      | Inr r \<Rightarrow> r)"

section \<open>Thread store\<close>

text \<open>
  A message and a thread are the documents the handlers build. \<open>oid\<close> is MongoDB's
  \<^verbatim>\<open>_id\<close> key: \<open>None\<close> while the dict has no such key (a dict just built by a handler,
  or a document read with the projection \<^verbatim>\<open>{"_id": 0}\<close>), \<open>Some\<close> the ObjectId otherwise.
  The collection is the list of its documents in insertion order.
\<close>

record message =
  msg_id :: string
  msg_text :: string
  sender :: string
  timestamp :: string
  pinned :: bool

record thread =
  oid :: "nat option"
  thread_id :: string
  title :: string
  description :: string
  messages :: "message list"
  created_at :: string

type_synonym store = "thread list"

text \<open>
  What a request finds in its surroundings: \<open>uuid4\<close> is the value of
  \<^verbatim>\<open>str(uuid.uuid4())\<close>, \<open>utcnow\<close> that of \<^verbatim>\<open>datetime.datetime.utcnow().isoformat()\<close>,
  \<open>new_oid\<close> the ObjectId the driver generates for an inserted document, and
  \<open>db_error\<close> is \<open>Some m\<close> when the database cannot be reached, so that a call on the
  collection raises with message \<open>m\<close>.
\<close>

record env =
  uuid4 :: string
  utcnow :: string
  new_oid :: nat
  db_error :: "string option"

datatype http_method = GET | POST | DELETE | OPTIONS

definition message_json :: "message \<Rightarrow> pyval" where
  "message_json m =
     PDict [(''id'', PStr (msg_id m)),
            (''text'', PStr (msg_text m)),
            (''sender'', PStr (sender m)),
            (''timestamp'', PStr (timestamp m)),
            (''pinned'', PBool (pinned m))]"

text \<open>\<^verbatim>\<open>jsonify\<close> of a thread dict. Flask's JSON provider has no encoding for an ObjectId
  and raises \<^verbatim>\<open>TypeError\<close> on a dict that carries one.\<close>

definition jsonify_thread :: "thread \<Rightarrow> exn + pyval" where
  "jsonify_thread t =
     (case oid t of
        Some i \<Rightarrow> Inl (TypeError ''Object of type ObjectId is not JSON serializable'')
      | None \<Rightarrow>
          Inr (PDict [(''id'', PStr (thread_id t)),
                      (''title'', PStr (title t)),
                      (''description'', PStr (description t)),
                      (''messages'', PList (map message_json (messages t))),
                      (''created_at'', PStr (created_at t))]))"

fun jsonify_threads :: "thread list \<Rightarrow> exn + pyval list" where
  "jsonify_threads [] = Inr []"
| "jsonify_threads (t # ts) =
     (case jsonify_thread t of
        Inl e \<Rightarrow> Inl e
      | Inr v \<Rightarrow> map_sum id ((#) v) (jsonify_threads ts))"

text \<open>The collection calls the handlers make. Each raises when the database is down.\<close>

definition db_call :: "env \<Rightarrow> 'a \<Rightarrow> exn + 'a" where
  "db_call e r = (case db_error e of Some m \<Rightarrow> Inl (OtherError m) | None \<Rightarrow> Inr r)"

text \<open>\<^verbatim>\<open>find({}, {"_id": 0})\<close> and \<^verbatim>\<open>find_one({"id": tid}, {"_id": 0})\<close>: the projection drops
  the \<^verbatim>\<open>_id\<close> key; \<^verbatim>\<open>find_one({"id": tid})\<close> keeps it.\<close>

definition find_all_projected :: "env \<Rightarrow> store \<Rightarrow> exn + thread list" where
  "find_all_projected e st = db_call e (map (\<lambda>t. t\<lparr>oid := None\<rparr>) st)"

definition find_one :: "env \<Rightarrow> store \<Rightarrow> string \<Rightarrow> exn + thread option" where
  "find_one e st tid = db_call e (find (\<lambda>t. thread_id t = tid) st)"

definition find_one_projected :: "env \<Rightarrow> store \<Rightarrow> string \<Rightarrow> exn + thread option" where
  "find_one_projected e st tid =
     db_call e (map_option (\<lambda>t. t\<lparr>oid := None\<rparr>) (find (\<lambda>t. thread_id t = tid) st))"

text \<open>\<^verbatim>\<open>insert_one(doc)\<close> stores the document and returns its \<^verbatim>\<open>_id\<close>. A document that has
  no \<^verbatim>\<open>_id\<close> key gets a generated one, written into the caller's dict as well: the
  second component is the caller's dict after the call.\<close>

definition insert_one :: "env \<Rightarrow> store \<Rightarrow> thread \<Rightarrow> exn + (store \<times> thread \<times> nat)" where
  "insert_one e st doc =
     (let i = (case oid doc of None \<Rightarrow> new_oid e | Some j \<Rightarrow> j);
          doc' = doc\<lparr>oid := Some i\<rparr>
      in db_call e (st @ [doc'], doc', i))"

text \<open>\<^verbatim>\<open>delete_one({"id": tid})\<close> removes the first matching document and reports how many
  it removed.\<close>

fun delete_first :: "string \<Rightarrow> store \<Rightarrow> store \<times> nat" where
  "delete_first tid [] = ([], 0)"
| "delete_first tid (t # ts) =
     (if thread_id t = tid then (ts, 1)
      else (case delete_first tid ts of (ts', n) \<Rightarrow> (t # ts', n)))"

definition delete_one :: "env \<Rightarrow> store \<Rightarrow> string \<Rightarrow> exn + (store \<times> nat)" where
  "delete_one e st tid = db_call e (delete_first tid st)"

text \<open>\<^verbatim>\<open>update_one({"id": tid}, {"$push": {"messages": m}})\<close> appends to the first matching
  document and reports how many documents it modified.\<close>

fun push_first :: "string \<Rightarrow> message \<Rightarrow> store \<Rightarrow> store \<times> nat" where
  "push_first tid m [] = ([], 0)"
| "push_first tid m (t # ts) =
     (if thread_id t = tid then (t\<lparr>messages := messages t @ [m]\<rparr> # ts, 1)
      else (case push_first tid m ts of (ts', n) \<Rightarrow> (t # ts', n)))"

definition update_one_push :: "env \<Rightarrow> store \<Rightarrow> string \<Rightarrow> message \<Rightarrow> exn + (store \<times> nat)" where
  "update_one_push e st tid m = db_call e (push_first tid m st)"

definition preflight :: response where
  "preflight = \<lparr>status = 200, body = PDict [(''message'', PStr ''CORS preflight'')]\<rparr>"

definition internal_error :: response where
  "internal_error = \<lparr>status = 500, body = error_body ''Internal server error''\<rparr>"

text \<open>A method the route does not list never reaches the view: Flask answers 405.\<close>

definition method_not_allowed :: response where
  "method_not_allowed = \<lparr>status = 405, body = error_body ''Method Not Allowed''\<rparr>"

subsection \<open>\<^verbatim>\<open>handle_threads\<close>: list and create\<close>

definition list_threads :: "env \<Rightarrow> store \<Rightarrow> response" where
  "list_threads e st =
     (case find_all_projected e st of
        Inl x \<Rightarrow> \<lparr>status = 500, body = error_body ''Failed to fetch threads''\<rparr>
      | Inr ts \<Rightarrow>
          (case jsonify_threads ts of
             Inl x \<Rightarrow> \<lparr>status = 500, body = error_body ''Failed to fetch threads''\<rparr>
           | Inr vs \<Rightarrow> \<lparr>status = 200, body = PList vs\<rparr>))"

text \<open>The inner \<^verbatim>\<open>try\<close> of the POST branch: insert, then answer with the dict that was
  handed to \<^verbatim>\<open>insert_one\<close>. An ObjectId is truthy, so the \<^verbatim>\<open>else\<close> branch of
  \<^verbatim>\<open>if result.inserted_id\<close> is never taken and has no counterpart here.\<close>

definition insert_thread :: "env \<Rightarrow> store \<Rightarrow> thread \<Rightarrow> exn + (response \<times> store)" where
  "insert_thread e st new_thread =
     (case insert_one e st new_thread of
        Inl x \<Rightarrow> Inl x
      | Inr (st', new_thread', inserted_id) \<Rightarrow>
          (case jsonify_thread new_thread' of
             Inl x \<Rightarrow>
               Inr (\<lparr>status = 500,
                     body = PDict [(''error'', PStr ''Internal server error''),
                                   (''details'', PStr (str_of x))]\<rparr>, st')
           | Inr v \<Rightarrow> Inr (\<lparr>status = 201, body = v\<rparr>, st')))"

definition create_thread_try ::
  "env \<Rightarrow> store \<Rightarrow> exn + pyval \<Rightarrow> exn + (response \<times> store)" where
  "create_thread_try e st get_json =
     (case get_json of
        Inl x \<Rightarrow> Inl x
      | Inr data \<Rightarrow>
          (case missing_field data ''title'' ''description'' of
             Inl x \<Rightarrow> Inl x
           | Inr True \<Rightarrow>
               Inr (\<lparr>status = 400, body = error_body ''Missing title or description''\<rparr>, st)
           | Inr False \<Rightarrow>
               (case getitem data ''title'' of
                  Inl x \<Rightarrow> Inl x
                | Inr tv \<Rightarrow>
                    (case strip_val tv of
                       Inl x \<Rightarrow> Inl x
                     | Inr ttl \<Rightarrow>
                         (case getitem data ''description'' of
                            Inl x \<Rightarrow> Inl x
                          | Inr dv \<Rightarrow>
                              (case strip_val dv of
                                 Inl x \<Rightarrow> Inl x
                               | Inr dsc \<Rightarrow>
                                   (let new_thread =
                                          \<lparr>oid = None, thread_id = uuid4 e, title = ttl,
                                           description = dsc, messages = [],
                                           created_at = utcnow e\<rparr>
                                    in case insert_thread e st new_thread of
                                         Inl x \<Rightarrow>
                                           Inr (\<lparr>status = 500,
                                                 body = PDict
                                                   [(''error'', PStr ''Internal server error''),
                                                    (''details'', PStr (str_of x))]\<rparr>, st)
                                       | Inr r \<Rightarrow> Inr r)))))))"

definition create_thread :: "env \<Rightarrow> store \<Rightarrow> exn + pyval \<Rightarrow> response \<times> store" where
  "create_thread e st get_json =
     (case create_thread_try e st get_json of
        Inl x \<Rightarrow> (internal_error, st)
      | Inr r \<Rightarrow> r)"

definition handle_threads ::
  "env \<Rightarrow> store \<Rightarrow> http_method \<Rightarrow> exn + pyval \<Rightarrow> response \<times> store" where
  "handle_threads e st method get_json =
     (case method of
        OPTIONS \<Rightarrow> (preflight, st)
      | GET \<Rightarrow> (list_threads e st, st)
      | POST \<Rightarrow> create_thread e st get_json
      | DELETE \<Rightarrow> (method_not_allowed, st))"

subsection \<open>\<^verbatim>\<open>get_thread\<close>: fetch and delete\<close>

definition get_thread_try ::
  "env \<Rightarrow> store \<Rightarrow> http_method \<Rightarrow> string \<Rightarrow> exn + (response \<times> store)" where
  "get_thread_try e st method tid =
     (case method of
        GET \<Rightarrow>
          (case find_one_projected e st tid of
             Inl x \<Rightarrow> Inl x
           | Inr None \<Rightarrow> Inr (\<lparr>status = 404, body = error_body ''Thread not found''\<rparr>, st)
           | Inr (Some t) \<Rightarrow>
               (case jsonify_thread t of
                  Inl x \<Rightarrow> Inl x
                | Inr v \<Rightarrow> Inr (\<lparr>status = 200, body = v\<rparr>, st)))
      | DELETE \<Rightarrow>
          (case delete_one e st tid of
             Inl x \<Rightarrow> Inl x
           | Inr (st', deleted_count) \<Rightarrow>
               if deleted_count = 0
               then Inr (\<lparr>status = 404, body = error_body ''Thread not found''\<rparr>, st')
               else Inr (\<lparr>status = 200,
                          body = PDict [(''message'', PStr ''Thread deleted successfully'')]\<rparr>,
                         st'))
      | _ \<Rightarrow> Inr (method_not_allowed, st))"

definition get_thread :: "env \<Rightarrow> store \<Rightarrow> http_method \<Rightarrow> string \<Rightarrow> response \<times> store" where
  "get_thread e st method tid =
     (if method = OPTIONS then (preflight, st)
      else case get_thread_try e st method tid of
             Inl x \<Rightarrow> (internal_error, st)
           | Inr r \<Rightarrow> r)"

subsection \<open>\<^verbatim>\<open>add_message\<close>\<close>

definition add_message_try ::
  "env \<Rightarrow> store \<Rightarrow> string \<Rightarrow> exn + pyval \<Rightarrow> exn + (response \<times> store)" where
  "add_message_try e st tid get_json =
     (case get_json of
        Inl x \<Rightarrow> Inl x
      | Inr data \<Rightarrow>
          (case missing_field data ''text'' ''sender'' of
             Inl x \<Rightarrow> Inl x
           | Inr True \<Rightarrow> Inr (\<lparr>status = 400, body = error_body ''Missing text or sender''\<rparr>, st)
           | Inr False \<Rightarrow>
               (case find_one e st tid of
                  Inl x \<Rightarrow> Inl x
                | Inr None \<Rightarrow>
                    Inr (\<lparr>status = 404, body = error_body ''Thread not found''\<rparr>, st)
                | Inr (Some thread) \<Rightarrow>
                    (case getitem data ''text'' of
                       Inl x \<Rightarrow> Inl x
                     | Inr tv \<Rightarrow>
                         (case strip_val tv of
                            Inl x \<Rightarrow> Inl x
                          | Inr txt \<Rightarrow>
                              (case getitem data ''sender'' of
                                 Inl x \<Rightarrow> Inl x
                               | Inr sv \<Rightarrow>
                                   (case strip_val sv of
                                      Inl x \<Rightarrow> Inl x
                                    | Inr snd_name \<Rightarrow>
                                        (let new_message =
                                               \<lparr>msg_id = uuid4 e, msg_text = txt,
                                                sender = snd_name, timestamp = utcnow e,
                                                pinned = False\<rparr>
                                         in case update_one_push e st tid new_message of
                                              Inl x \<Rightarrow> Inl x
                                            | Inr (st', modified_count) \<Rightarrow>
                                                if modified_count = 1
                                                then Inr (\<lparr>status = 201,
                                                           body = message_json new_message\<rparr>,
                                                          st')
                                                else Inr (\<lparr>status = 500,
                                                           body = error_body
                                                             ''Failed to add message''\<rparr>,
                                                          st')))))))))"

definition add_message ::
  "env \<Rightarrow> store \<Rightarrow> http_method \<Rightarrow> string \<Rightarrow> exn + pyval \<Rightarrow> response \<times> store" where
  "add_message e st method tid get_json =
     (if method = OPTIONS then (preflight, st)
      else if method \<noteq> POST then (method_not_allowed, st)
      else case add_message_try e st tid get_json of
             Inl x \<Rightarrow> (internal_error, st)
           | Inr r \<Rightarrow> r)"

subsection \<open>\<^verbatim>\<open>report_message\<close>\<close>

text \<open>The POST branch. The handler reads the collection and writes a log line; it makes
  no call that writes to the collection, so the store it leaves is the store it found.\<close>

definition report_message_try ::
  "env \<Rightarrow> store \<Rightarrow> string \<Rightarrow> string \<Rightarrow> exn + response" where
  "report_message_try e st tid mid =
     (case find_one e st tid of
        Inl x \<Rightarrow> Inl x
      | Inr None \<Rightarrow> Inr \<lparr>status = 404, body = error_body ''Thread not found''\<rparr>
      | Inr (Some thread) \<Rightarrow>
          (case find (\<lambda>m. msg_id m = mid) (messages thread) of
             None \<Rightarrow> Inr \<lparr>status = 404, body = error_body ''Message not found''\<rparr>
           | Some message \<Rightarrow>
               Inr \<lparr>status = 200, body = PDict [(''status'', PStr ''Message reported'')]\<rparr>))"

definition report_message :: "env \<Rightarrow> store \<Rightarrow> string \<Rightarrow> string \<Rightarrow> response \<times> store" where
  "report_message e st tid mid =
     (case report_message_try e st tid mid of
        Inl x \<Rightarrow> (internal_error, st)
      | Inr r \<Rightarrow> (r, st))"

section \<open>PDF text extraction and \<^verbatim>\<open>/process-pdf\<close>\<close>

text \<open>\<^verbatim>\<open>s.split(sep)\<close> for a one-character separator: one more part than separators.\<close>

fun split_on :: "char \<Rightarrow> string \<Rightarrow> string list" where
  "split_on sep [] = [[]]"
| "split_on sep (c # cs) =
     (if c = sep then [] # split_on sep cs
      else (case split_on sep cs of
              [] \<Rightarrow> [[c]]
            | p # ps \<Rightarrow> (c # p) # ps))"

text \<open>\<^verbatim>\<open>s.split()\<close>: the maximal runs of non-whitespace characters.\<close>

fun split_ws_acc :: "string \<Rightarrow> string \<Rightarrow> string list" where
  "split_ws_acc w [] = (if w = [] then [] else [rev w])"
| "split_ws_acc w (c # cs) =
     (if isspace c then (if w = [] then split_ws_acc [] cs else rev w # split_ws_acc [] cs)
      else split_ws_acc (c # w) cs)"

definition split_ws :: "string \<Rightarrow> string list" where
  "split_ws s = split_ws_acc [] s"

text \<open>\<^verbatim>\<open>sep.join(parts)\<close>.\<close>

fun join :: "string \<Rightarrow> string list \<Rightarrow> string" where
  "join sep [] = []"
| "join sep [p] = p"
| "join sep (p # q # ps) = p @ sep @ join sep (q # ps)"

text \<open>\<^verbatim>\<open>s.lower()\<close> on code points below 256 and \<^verbatim>\<open>s.endswith(suffix)\<close>.\<close>

definition lower_char :: "char \<Rightarrow> char" where
  "lower_char c =
     (let n = (of_char c :: nat)
      in if (65 \<le> n \<and> n \<le> 90) \<or> (192 \<le> n \<and> n \<le> 222 \<and> n \<noteq> 215)
         then char_of (n + 32) else c)"

definition lower :: "string \<Rightarrow> string" where
  "lower s = map lower_char s"

definition endswith :: "string \<Rightarrow> string \<Rightarrow> bool" where
  "endswith s suffix = is_prefix (rev suffix) (rev s)"

text \<open>
  \<^verbatim>\<open>int(s)\<close> on a string, base 10: surrounding whitespace is dropped, one sign is allowed,
  the digits may be grouped by single underscores, and a literal of more than
  \<open>int_max_str_digits\<close> digits is refused. Every failure is a \<^verbatim>\<open>ValueError\<close>. The
  whitespace \<open>int\<close> skips is narrower than that of \<^verbatim>\<open>str.strip\<close>: the C whitespace
  (code points 9 to 13 and 32) and the whitespace beyond ASCII (133 and 160 below 256);
  the separators 28 to 31 are not skipped and make the literal invalid.
\<close>

definition int_space :: "char \<Rightarrow> bool" where
  "int_space c =
     (let n = (of_char c :: nat)
      in (9 \<le> n \<and> n \<le> 13) \<or> n = 32 \<or> n = 133 \<or> n = 160)"

fun digits_ok :: "string \<Rightarrow> bool" where
  "digits_ok [] = False"
| "digits_ok [c] = is_digit c"
| "digits_ok (c # d # cs) =
     (is_digit c \<and> (if d = CHR ''_'' then digits_ok cs else digits_ok (d # cs)))"

definition py_int :: "string \<Rightarrow> exn + int" where
  "py_int s =
     (let t = rev (dropWhile int_space (rev (dropWhile int_space s)));
          neg = (case t of [] \<Rightarrow> False | c # r \<Rightarrow> c = CHR ''-'');
          signed = (case t of [] \<Rightarrow> False | c # r \<Rightarrow> c = CHR ''-'' \<or> c = CHR ''+'');
          ds = (if signed then tl t else t);
          n = int (nat_of_digits (filter is_digit ds))
      in if \<not> digits_ok ds then Inl (ValueError ''invalid literal for int() with base 10'')
         else if int_max_str_digits < length (filter is_digit ds)
         then Inl (ValueError ''Exceeds the limit for integer string conversion'')
         else Inr (if neg then - n else n))"

text \<open>
  \<^verbatim>\<open>start, end = map(int, parts)\<close>: the two targets are taken from the lazy map one at a
  time, then a third element is asked for to see that there is none. Whatever goes wrong
  is a \<^verbatim>\<open>ValueError\<close>, from \<open>int\<close> or from the unpacking.
\<close>

fun unpack2 :: "string list \<Rightarrow> exn + (int \<times> int)" where
  "unpack2 [] = Inl (ValueError ''not enough values to unpack (expected 2, got 0)'')"
| "unpack2 [p] =
     (case py_int p of
        Inl x \<Rightarrow> Inl x
      | Inr a \<Rightarrow> Inl (ValueError ''not enough values to unpack (expected 2, got 1)''))"
| "unpack2 [p, q] =
     (case py_int p of
        Inl x \<Rightarrow> Inl x
      | Inr a \<Rightarrow> (case py_int q of Inl x \<Rightarrow> Inl x | Inr b \<Rightarrow> Inr (a, b)))"
| "unpack2 (p # q # r # rest) =
     (case py_int p of
        Inl x \<Rightarrow> Inl x
      | Inr a \<Rightarrow>
          (case py_int q of
             Inl x \<Rightarrow> Inl x
           | Inr b \<Rightarrow>
               (case py_int r of
                  Inl x \<Rightarrow> Inl x
                | Inr c \<Rightarrow> Inl (ValueError ''too many values to unpack (expected 2)''))))"

definition parse_range :: "string \<Rightarrow> exn + (int \<times> int)" where
  "parse_range page_range = unpack2 (split_on (CHR ''-'') page_range)"

text \<open>
  A page is the outcome of its \<^verbatim>\<open>extract_text()\<close>: an exception, \<open>None\<close>, or the text.
  The list comprehension \<^verbatim>\<open>[page.extract_text() or "" for page in pages]\<close> visits the
  pages in order and stops at the first exception.
\<close>

type_synonym page = "exn + string option"

definition text_or_empty :: "string option \<Rightarrow> string" where
  "text_or_empty r = (case r of None \<Rightarrow> [] | Some t \<Rightarrow> t)"

fun page_texts :: "page list \<Rightarrow> exn + string list" where
  "page_texts [] = Inr []"
| "page_texts (Inl x # ps) = Inl x"
| "page_texts (Inr r # ps) = map_sum id ((#) (text_or_empty r)) (page_texts ps)"

text \<open>The page selection both functions make: all pages, or the slice
  \<^verbatim>\<open>pages[start-1:end]\<close>.\<close>

definition select_pages :: "page list \<Rightarrow> string \<Rightarrow> exn + page list" where
  "select_pages pages page_range =
     (if page_range = ''all'' then Inr pages
      else case parse_range page_range of
             Inl x \<Rightarrow> Inl x
           | Inr (start, endp) \<Rightarrow> Inr (py_slice pages (start - 1) endp))"

subsection \<open>\<^verbatim>\<open>extract_text_from_pdf\<close> and its cache\<close>

text \<open>\<open>open_pdf\<close> stands for opening the file and reading it with \<^verbatim>\<open>PdfReader\<close>: the pages
  of the document at a path, or the exception raised.\<close>

definition extract_text_body ::
  "(string \<Rightarrow> exn + page list) \<Rightarrow> string \<Rightarrow> string \<Rightarrow> exn + string" where
  "extract_text_body open_pdf filepath page_range =
     (case open_pdf filepath of
        Inl x \<Rightarrow> Inl x
      | Inr all_pages \<Rightarrow>
          (case select_pages all_pages page_range of
             Inl x \<Rightarrow> Inl x
           | Inr pages \<Rightarrow> map_sum id (join [CHR 0x0A]) (page_texts pages)))"

text \<open>\<^verbatim>\<open>lru_cache(maxsize=5)\<close>: results are kept by argument pair, most recently used first;
  a call that raises stores nothing.\<close>

type_synonym cache = "((string \<times> string) \<times> string) list"

definition extract_text_from_pdf ::
  "(string \<Rightarrow> exn + page list) \<Rightarrow> cache \<Rightarrow> string \<Rightarrow> string \<Rightarrow> (exn + string) \<times> cache" where
  "extract_text_from_pdf open_pdf c filepath page_range =
     (let key = (filepath, page_range)
      in case map_of c key of
           Some r \<Rightarrow> (Inr r, (key, r) # filter (\<lambda>kv. fst kv \<noteq> key) c)
         | None \<Rightarrow>
             (case extract_text_body open_pdf filepath page_range of
                Inl x \<Rightarrow> (Inl x, c)
              | Inr r \<Rightarrow> (Inr r, take 5 ((key, r) # c))))"

subsection \<open>\<^verbatim>\<open>process_pdf\<close>\<close>

text \<open>
  The request carries the uploaded files and the form fields. \<open>pdf_reader\<close> stands for
  \<^verbatim>\<open>PdfReader\<close> on the saved bytes (the temp file holds exactly the upload),
  \<open>secure_filename\<close> for the library function of that name, and \<open>generated\<close> for the
  outcome of \<^verbatim>\<open>model.generate_content(prompt)\<close> followed by \<^verbatim>\<open>.text\<close>.
\<close>

record upload =
  filename :: string
  content :: string

record request =
  files :: "string \<rightharpoonup> upload"
  form :: "string \<rightharpoonup> string"

record pdf_env =
  pdf_reader :: "string \<Rightarrow> exn + page list"
  secure_filename :: "string \<Rightarrow> string"
  generated :: "exn + string"

definition bad_range_message :: string where
  "bad_range_message = ''Invalid page range format. Use '' @ [CHR 0x27] @ ''1-5'' @ [CHR 0x27]"

text \<open>Lines 104-119, \<^verbatim>\<open># Read PDF content\<close>: the extracted text, or the 400 answer for a
  range that does not parse, or the exception raised.\<close>

definition read_pdf_content :: "page list \<Rightarrow> string \<Rightarrow> exn + (response + string)" where
  "read_pdf_content all_pages page_range =
     (case (if page_range \<noteq> ''all''
            then (case parse_range page_range of
                    Inl (ValueError m) \<Rightarrow> Inr (Inl \<lparr>status = 400, body = error_body bad_range_message\<rparr>)
                  | Inl x \<Rightarrow> Inl x
                  | Inr (start, endp) \<Rightarrow> Inr (Inr (py_slice all_pages (start - 1) endp)))
            else Inr (Inr all_pages)) of
        Inl x \<Rightarrow> Inl x
      | Inr (Inl r) \<Rightarrow> Inr (Inl r)
      | Inr (Inr pages) \<Rightarrow>
          (case page_texts pages of
             Inl x \<Rightarrow> Inl x
           | Inr ts \<Rightarrow> Inr (Inr (join [CHR 0x0A] ts))))"

text \<open>Lines 121-128, \<^verbatim>\<open># Validate parameters\<close>: \<open>None\<close> is the 400 answer.\<close>

definition question_params :: "request \<Rightarrow> (int \<times> string) option" where
  "question_params req =
     (case (case form req ''num_questions'' of None \<Rightarrow> Inr 5 | Some s \<Rightarrow> py_int s) of
        Inl x \<Rightarrow> None
      | Inr num_questions \<Rightarrow>
          (let question_type = (case form req ''question_type'' of None \<Rightarrow> ''MCQ'' | Some q \<Rightarrow> q)
           in if question_type \<noteq> ''MCQ'' \<and> question_type \<noteq> ''Subjective'' then None
              else Some (num_questions, question_type)))"

definition process_pdf_try :: "pdf_env \<Rightarrow> request \<Rightarrow> exn + response" where
  "process_pdf_try e req =
     (case files req ''pdf'' of
        None \<Rightarrow> Inr \<lparr>status = 400, body = error_body ''No file uploaded''\<rparr>
      | Some file \<Rightarrow>
          if filename file = [] then Inr \<lparr>status = 400, body = error_body ''No selected file''\<rparr>
          else if \<not> endswith (lower (filename file)) ''.pdf''
          then Inr \<lparr>status = 400, body = error_body ''Only PDF files are allowed''\<rparr>
          else if content file = []
          then Inr \<lparr>status = 400, body = error_body ''Failed to save PDF file''\<rparr>
          else
            (case pdf_reader e (content file) of
               Inl x \<Rightarrow> Inl x
             | Inr all_pages \<Rightarrow>
                 (let page_range = (case form req ''page_range'' of None \<Rightarrow> ''all'' | Some r \<Rightarrow> r)
                  in case read_pdf_content all_pages page_range of
                       Inl x \<Rightarrow> Inl x
                     | Inr (Inl r) \<Rightarrow> Inr r
                     | Inr (Inr text) \<Rightarrow>
                         (case question_params req of
                            None \<Rightarrow>
                              Inr \<lparr>status = 400, body = error_body ''Invalid question parameters''\<rparr>
                          | Some (num_questions, question_type) \<Rightarrow>
                              (case generated e of
                                 Inl x \<Rightarrow> Inl x
                               | Inr questions \<Rightarrow>
                                   Inr \<lparr>status = 200,
                                        body = PDict
                                          [(''questions'', PStr questions),
                                           (''text'', PStr (take 1000 text)),
                                           (''metadata'', PDict
                                              [(''pages_processed'',
                                                if page_range \<noteq> ''all''
                                                then PInt (int (length (split_on (CHR ''-'') page_range)))
                                                else PStr ''all''),
                                               (''word_count'', PInt (int (length (split_ws text)))),
                                               (''filename'',
                                                PStr (secure_filename e (filename file)))])]\<rparr>)))))"

definition process_pdf :: "pdf_env \<Rightarrow> request \<Rightarrow> response" where
  "process_pdf e req =
     (case process_pdf_try e req of
        Inl x \<Rightarrow> \<lparr>status = 500, body = error_body ''Failed to process PDF''\<rparr>
      | Inr r \<Rightarrow> r)"

section \<open>Temp-file removal (\<^verbatim>\<open>cleanup_file\<close>)\<close>

text \<open>
  The part of the process state \<open>cleanup_file\<close> touches: the files that exist, each
  either removable or protected (\<^verbatim>\<open>os.unlink\<close> raises on it), the registry
  \<^verbatim>\<open>_temp_files\<close>, and the warnings logged so far.
\<close>

datatype file_kind = Removable | Protected

record sys =
  fs :: "(string \<times> file_kind) list"
  temp_files :: "string list"
  warnings :: "string list"

definition path_exists :: "(string \<times> file_kind) list \<Rightarrow> string \<Rightarrow> bool" where
  "path_exists f p = (map_of f p \<noteq> None)"

definition os_unlink :: "(string \<times> file_kind) list \<Rightarrow> string \<Rightarrow> exn + (string \<times> file_kind) list" where
  "os_unlink f p =
     (case map_of f p of
        None \<Rightarrow> Inl (OSError ''No such file or directory'')
      | Some Protected \<Rightarrow> Inl (OSError ''Permission denied'')
      | Some Removable \<Rightarrow> Inr (filter (\<lambda>kv. fst kv \<noteq> p) f))"

text \<open>The body of the \<^verbatim>\<open>try\<close> block.\<close>

definition cleanup_file_try :: "sys \<Rightarrow> string \<Rightarrow> exn + sys" where
  "cleanup_file_try s filepath =
     (if filepath \<noteq> [] \<and> path_exists (fs s) filepath
      then (case os_unlink (fs s) filepath of
              Inl x \<Rightarrow> Inl x
            | Inr f' \<Rightarrow>
                Inr (s\<lparr>fs := f',
                       temp_files := (if filepath \<in> set (temp_files s)
                                      then remove1 filepath (temp_files s)
                                      else temp_files s)\<rparr>))
      else Inr s)"

text \<open>The whole function: what the caller sees is \<open>Inl\<close> if an exception leaves
  \<open>cleanup_file\<close>, and the state it leaves behind otherwise.\<close>

definition cleanup_file :: "sys \<Rightarrow> string \<Rightarrow> exn + sys" where
  "cleanup_file s filepath =
     (case cleanup_file_try s filepath of
        Inl x \<Rightarrow>
          Inr (s\<lparr>warnings := warnings s @ [''Failed to delete '' @ filepath @ '': '' @ str_of x]\<rparr>)
      | Inr s' \<Rightarrow> Inr s')"

section \<open>Runs of the thread store\<close>

text \<open>
  \<^verbatim>\<open>uuid.uuid4()\<close> draws its identifiers at random; what the handlers rely on is that it
  does not return the same value twice. A run of the server is therefore described
  together with the identifiers it is given: \<open>gen k\<close> is the value of
  \<^verbatim>\<open>str(uuid.uuid4())\<close> in request number \<open>k\<close> (a handler calls it at most once), and the
  property of the library is that \<open>gen\<close> is injective. An event is one request to a
  thread route with what else it finds: the clock, the ObjectId the driver would
  generate and the state of the database.
\<close>

datatype api_call =
    CallThreads http_method "exn + pyval"
  | CallThread http_method string
  | CallMessages http_method string "exn + pyval"
  | CallReport string string

record event =
  api :: api_call
  at_time :: string
  fresh_oid :: nat
  db_fault :: "string option"

definition env_of :: "(nat \<Rightarrow> string) \<Rightarrow> nat \<Rightarrow> event \<Rightarrow> env" where
  "env_of gen k ev =
     \<lparr>uuid4 = gen k, utcnow = at_time ev, new_oid = fresh_oid ev, db_error = db_fault ev\<rparr>"

fun serve :: "env \<Rightarrow> store \<Rightarrow> api_call \<Rightarrow> response \<times> store" where
  "serve e st (CallThreads m get_json) = handle_threads e st m get_json"
| "serve e st (CallThread m tid) = get_thread e st m tid"
| "serve e st (CallMessages m tid get_json) = add_message e st m tid get_json"
| "serve e st (CallReport tid mid) = report_message e st tid mid"

text \<open>The store after a sequence of requests, the first of them being request number
  \<open>k\<close>.\<close>

fun run :: "(nat \<Rightarrow> string) \<Rightarrow> nat \<Rightarrow> store \<Rightarrow> event list \<Rightarrow> store" where
  "run gen k st [] = st"
| "run gen k st (ev # evs) =
     run gen (Suc k) (snd (serve (env_of gen k ev) st (api ev))) evs"

text \<open>The invariant of a run: the thread identifiers in the store are distinct and were
  all issued to earlier requests.\<close>

definition issued :: "(nat \<Rightarrow> string) \<Rightarrow> nat \<Rightarrow> store \<Rightarrow> bool" where
  "issued gen k st =
     (distinct (map thread_id st) \<and> thread_id ` set st \<subseteq> gen ` {..<k})"

section \<open>Sample data for the concrete checks\<close>

definition env0 :: env where
  "env0 = \<lparr>uuid4 = ''u-1'', utcnow = ''2024-05-01T10:00:00'', new_oid = 7, db_error = None\<rparr>"

definition msg0 :: message where
  "msg0 = \<lparr>msg_id = ''m1'', msg_text = ''hello'', sender = ''ann'',
           timestamp = ''2024-04-30T09:00:00'', pinned = False\<rparr>"

definition store0 :: store where
  "store0 =
     [\<lparr>oid = Some 1, thread_id = ''t1'', title = ''First'', description = ''d1'',
       messages = [msg0], created_at = ''2024-04-30T08:00:00''\<rparr>,
      \<lparr>oid = Some 2, thread_id = ''t2'', title = ''Second'', description = ''d2'',
       messages = [], created_at = ''2024-04-30T08:30:00''\<rparr>]"

definition sys0 :: sys where
  "sys0 = \<lparr>fs = [(''/tmp/a.pdf'', Removable), (''/tmp/b.pdf'', Protected)],
           temp_files = [''/tmp/a.pdf'', ''/tmp/b.pdf''],
           warnings = []\<rparr>"

text \<open>An upload that passes the file checks of \<open>process_pdf\<close> and that \<^verbatim>\<open>PdfReader\<close> opens.\<close>

definition accepted_upload :: "pdf_env \<Rightarrow> request \<Rightarrow> page list \<Rightarrow> bool" where
  "accepted_upload e req pages =
     (case files req ''pdf'' of
        None \<Rightarrow> False
      | Some file \<Rightarrow>
          filename file \<noteq> [] \<and> endswith (lower (filename file)) ''.pdf'' \<and>
          content file \<noteq> [] \<and> pdf_reader e (content file) = Inr pages)"

definition pages0 :: "page list" where
  "pages0 = [Inr (Some ''one''), Inr None, Inr (Some ''three 3''), Inr (Some ''four''),
             Inr (Some ''five''), Inr (Some ''six'')]"

definition penv0 :: pdf_env where
  "penv0 = \<lparr>pdf_reader = (\<lambda>bytes. Inr pages0), secure_filename = (\<lambda>name. name),
            generated = Inr ''Q1) What is one?''\<rparr>"

definition req0 :: "string \<Rightarrow> request" where
  "req0 r = \<lparr>files = [''pdf'' \<mapsto> \<lparr>filename = ''Notes.PDF'', content = ''%PDF-1.4''\<rparr>],
             form = [''page_range'' \<mapsto> r]\<rparr>"

definition pages1 :: "page list" where
  "pages1 = [Inr (Some ''one''), Inl (OtherError ''cannot decode page''), Inr (Some ''three'')]"

definition penv1 :: pdf_env where
  "penv1 = \<lparr>pdf_reader = (\<lambda>bytes. Inr pages1), secure_filename = (\<lambda>name. name),
            generated = Inr ''Q1) What is one?''\<rparr>"

definition sample_gen :: "nat \<Rightarrow> string" where
  "sample_gen k = ''id-'' @ replicate k (CHR ''x'')"

definition events0 :: "event list" where
  "events0 =
     [\<lparr>api = CallThreads POST
              (Inr (PDict [(''title'', PStr ''First''), (''description'', PStr ''d1'')])),
       at_time = ''2024-04-30T08:00:00'', fresh_oid = 1, db_fault = None\<rparr>,
      \<lparr>api = CallMessages POST ''id-''
              (Inr (PDict [(''text'', PStr ''hello''), (''sender'', PStr ''ann'')])),
       at_time = ''2024-04-30T09:00:00'', fresh_oid = 2, db_fault = None\<rparr>]"

definition env1 :: env where
  "env1 = \<lparr>uuid4 = ''id-xx'', utcnow = ''2024-05-01T10:00:00'', new_oid = 7, db_error = None\<rparr>"

section \<open>Properties\<close>

subsection \<open>Locating the braces\<close>

lemma takeWhile_shorter:
  "x \<in> set xs \<Longrightarrow> \<not> P x \<Longrightarrow> length (takeWhile P xs) < length xs"
  by (induction xs) auto

lemma str_find_absent: "(str_find c s = - 1) = (c \<notin> set s)"
  by (simp add: str_find_def)

lemma str_rfind_absent: "(str_rfind c s + 1 = 0) = (c \<notin> set s)"
proof (cases "c \<in> set s")
  case True
  then have "length (takeWhile (\<lambda>x. x \<noteq> c) (rev s)) < length (rev s)"
    by (intro takeWhile_shorter [where x = c]) simp_all
  with True show ?thesis by (simp add: str_rfind_def)
next
  case False
  then show ?thesis by (simp add: str_rfind_def)
qed

lemma parse_json_try_no_braces:
  "CHR ''{'' \<notin> set text \<or> CHR ''}'' \<notin> set text \<Longrightarrow>
   parse_json_try dec text = Inl (ValueError ''No JSON found in response'')"
  by (auto simp: parse_json_try_def Let_def str_find_absent str_rfind_absent)

lemma parse_json_try_braces:
  "CHR ''{'' \<in> set text \<Longrightarrow> CHR ''}'' \<in> set text \<Longrightarrow>
   parse_json_try dec text =
     dec (py_slice text (str_find (CHR ''{'') text) (str_rfind (CHR ''}'') text + 1))"
  by (simp add: parse_json_try_def Let_def str_find_absent str_rfind_absent)

text \<open>When the decoder accepts the text between the braces, the parser returns exactly
  what the decoder produced.\<close>

lemma parse_json_response_decoded:
  assumes "CHR ''{'' \<in> set text" and "CHR ''}'' \<in> set text"
    and "dec (py_slice text (str_find (CHR ''{'') text) (str_rfind (CHR ''}'') text + 1)) = Inr v"
  shows "parse_json_response dec text = v"
  using assms by (simp add: parse_json_response_def parse_json_try_braces)

subsection \<open>C1: well-formed JSON between the braces\<close>

text \<open>
  C1. The claim: whenever the text between the first \<open>{\<close> and the last \<open>}\<close> is
  well-formed JSON, \<open>parse_json_response\<close> returns an object with the fields of that
  JSON object. The decoder the function calls reads Python literals, not JSON: on the
  well-formed JSON object \<^verbatim>\<open>{"score": 90, "passed": true}\<close> the JSON constant \<^verbatim>\<open>true\<close> is
  a Python name, the decoder raises, and the function returns the fallback object with
  score 0 instead of the object's fields.
\<close>

theorem json_true_rejected:
  \<open>parse_json_response ast_literal_eval ''{"score": 90, "passed": true}'' =
   fallback ''malformed node or string'' ''{"score": 90, "passed": true}''\<close>
  by code_simp

subsection \<open>C5: the fallback object\<close>

lemma missing_field_dict:
  "k1 \<in> fst ` set kvs \<Longrightarrow> k2 \<in> fst ` set kvs \<Longrightarrow> missing_field (PDict kvs) k1 k2 = Inr False"
  by (auto simp: missing_field_def)

lemma getitem_dict_present:
  "k \<in> fst ` set kvs \<Longrightarrow> \<exists>v. getitem (PDict kvs) k = Inr v"
  by (cases "map_of kvs k") (auto simp: map_of_eq_None_iff)

lemma fallback_timestamp:
  "set_timestamp (fallback err text) now =
     Inr (PDict [(''score'', PInt 0), (''feedback'', PStr ''Could not parse evaluation''),
                 (''error'', PStr err), (''original_response'', PStr text),
                 (''timestamp'', PStr now)])"
  by (simp add: fallback_def)

lemma evaluate_answer_fallback:
  assumes "''student_answer'' \<in> fst ` set kvs" and "''model_answer'' \<in> fst ` set kvs"
    and "parse_json_response dec text = fallback err text"
  shows "evaluate_answer dec now (Inr (PDict kvs)) (Inr text) =
     \<lparr>status = 200,
      body = PDict [(''score'', PInt 0), (''feedback'', PStr ''Could not parse evaluation''),
                 (''error'', PStr err), (''original_response'', PStr text),
                 (''timestamp'', PStr now)]\<rparr>"
proof -
  obtain sa where sa: "getitem (PDict kvs) ''student_answer'' = Inr sa"
    using getitem_dict_present [OF assms(1)] by blast
  obtain ma where ma: "getitem (PDict kvs) ''model_answer'' = Inr ma"
    using getitem_dict_present [OF assms(2)] by blast
  have mf: "missing_field (PDict kvs) ''student_answer'' ''model_answer'' = Inr False"
    by (rule missing_field_dict [OF assms(1,2)])
  have "evaluate_answer_try dec now (Inr (PDict kvs)) (Inr text) =
     Inr \<lparr>status = 200,
      body = PDict [(''score'', PInt 0), (''feedback'', PStr ''Could not parse evaluation''),
                 (''error'', PStr err), (''original_response'', PStr text),
                 (''timestamp'', PStr now)]\<rparr>"
    unfolding evaluate_answer_try_def
    by (simp only: mf sa ma assms(3) fallback_timestamp sum.case bool.case)
  then show ?thesis
    by (simp only: evaluate_answer_def sum.case)
qed

text \<open>
  C5. For every text on which structured decoding fails, because a brace is missing or
  because the decoder raises on the text between the braces, \<open>parse_json_response\<close>
  returns the fallback object: score 0, the fixed feedback message, the error string
  (the fixed text \<^verbatim>\<open>No JSON found in response\<close> when a brace is missing, the string of
  the decoder's exception otherwise) and the original text. In \<open>evaluate_answer\<close>, for
  a request that carries both answers, this fallback (with the timestamp added) is the
  payload of a 200 response, not a failure. The statement holds for every decoder.
\<close>

theorem parse_failure_fallback:
  assumes "CHR ''{'' \<notin> set text \<or> CHR ''}'' \<notin> set text \<or>
           literal_eval (py_slice text (str_find (CHR ''{'') text)
                                       (str_rfind (CHR ''}'') text + 1)) = Inl x"
  shows "parse_json_response literal_eval text =
           fallback (if CHR ''{'' \<notin> set text \<or> CHR ''}'' \<notin> set text
                     then ''No JSON found in response'' else str_of x) text \<and>
         (\<forall>now kvs. ''student_answer'' \<in> fst ` set kvs \<and> ''model_answer'' \<in> fst ` set kvs \<longrightarrow>
            evaluate_answer literal_eval now (Inr (PDict kvs)) (Inr text) =
              \<lparr>status = 200,
               body = PDict [(''score'', PInt 0),
                             (''feedback'', PStr ''Could not parse evaluation''),
                             (''error'',
                              PStr (if CHR ''{'' \<notin> set text \<or> CHR ''}'' \<notin> set text
                                    then ''No JSON found in response'' else str_of x)),
                             (''original_response'', PStr text),
                             (''timestamp'', PStr now)]\<rparr>)"
proof -
  let ?err = "if CHR ''{'' \<notin> set text \<or> CHR ''}'' \<notin> set text
              then ''No JSON found in response'' else str_of x"
  have p: "parse_json_response literal_eval text = fallback ?err text"
  proof (cases "CHR ''{'' \<notin> set text \<or> CHR ''}'' \<notin> set text")
    case True
    then have "parse_json_try literal_eval text = Inl (ValueError ''No JSON found in response'')"
      by (rule parse_json_try_no_braces)
    with True show ?thesis
      by (simp only: parse_json_response_def sum.case str_of.simps if_True)
  next
    case False
    with assms have "parse_json_try literal_eval text = Inl x"
      by (simp add: parse_json_try_braces)
    with False show ?thesis
      by (simp only: parse_json_response_def sum.case if_False)
  qed
  show ?thesis
  proof (intro conjI allI impI)
    show "parse_json_response literal_eval text = fallback ?err text" by (rule p)
  next
    fix now :: string and kvs :: "(string \<times> pyval) list"
    assume "''student_answer'' \<in> fst ` set kvs \<and> ''model_answer'' \<in> fst ` set kvs"
    then have k1: "''student_answer'' \<in> fst ` set kvs" and k2: "''model_answer'' \<in> fst ` set kvs"
      by simp_all
    show "evaluate_answer literal_eval now (Inr (PDict kvs)) (Inr text) =
              \<lparr>status = 200,
               body = PDict [(''score'', PInt 0),
                             (''feedback'', PStr ''Could not parse evaluation''),
                             (''error'', PStr ?err),
                             (''original_response'', PStr text),
                             (''timestamp'', PStr now)]\<rparr>"
      by (rule evaluate_answer_fallback [OF k1 k2 p])
  qed
qed

theorem parse_failure_fallback_witness:
  \<open>CHR ''{'' \<in> set ''Verdict: {"score": unknown}'' \<and>
   CHR ''}'' \<in> set ''Verdict: {"score": unknown}'' \<and>
   ast_literal_eval (py_slice ''Verdict: {"score": unknown}''
       (str_find (CHR ''{'') ''Verdict: {"score": unknown}'')
       (str_rfind (CHR ''}'') ''Verdict: {"score": unknown}'' + 1)) = Inl malformed \<and>
   parse_json_response ast_literal_eval ''Verdict: {"score": unknown}'' =
     fallback ''malformed node or string'' ''Verdict: {"score": unknown}'' \<and>
   evaluate_answer ast_literal_eval ''2024-05-01T10:00:00''
       (Inr (PDict [(''student_answer'', PStr ''4''), (''model_answer'', PStr ''5'')]))
       (Inr ''Verdict: {"score": unknown}'') =
     \<lparr>status = 200,
      body = PDict [(''score'', PInt 0),
                    (''feedback'', PStr ''Could not parse evaluation''),
                    (''error'', PStr ''malformed node or string''),
                    (''original_response'', PStr ''Verdict: {"score": unknown}''),
                    (''timestamp'', PStr ''2024-05-01T10:00:00'')]\<rparr>\<close>
proof -
  let ?t = \<open>''Verdict: {"score": unknown}''\<close>
  let ?kvs = "[(''student_answer'', PStr ''4''), (''model_answer'', PStr ''5'')]"
  have b1: "CHR ''{'' \<in> set ?t" by simp
  have b2: "CHR ''}'' \<in> set ?t" by simp
  have dec: "ast_literal_eval (py_slice ?t (str_find (CHR ''{'') ?t)
               (str_rfind (CHR ''}'') ?t + 1)) = Inl malformed"
    by code_simp
  have err: "(if CHR ''{'' \<notin> set ?t \<or> CHR ''}'' \<notin> set ?t
              then ''No JSON found in response'' else str_of malformed) =
             ''malformed node or string''"
    using b1 b2 by (simp add: malformed_def)
  have keys: "''student_answer'' \<in> fst ` set ?kvs \<and> ''model_answer'' \<in> fst ` set ?kvs"
    by simp
  note v = parse_failure_fallback [of ?t ast_literal_eval malformed, OF disjI2 [OF disjI2 [OF dec]]]
  have r1: "parse_json_response ast_literal_eval ?t = fallback ''malformed node or string'' ?t"
    using v [THEN conjunct1] by (simp only: err)
  have r2: "evaluate_answer ast_literal_eval ''2024-05-01T10:00:00'' (Inr (PDict ?kvs)) (Inr ?t) =
     \<lparr>status = 200,
      body = PDict [(''score'', PInt 0),
                    (''feedback'', PStr ''Could not parse evaluation''),
                    (''error'', PStr ''malformed node or string''),
                    (''original_response'', PStr ?t),
                    (''timestamp'', PStr ''2024-05-01T10:00:00'')]\<rparr>"
    using v [THEN conjunct2, rule_format, of ?kvs "''2024-05-01T10:00:00''", OF keys]
    by (simp only: err)
  from b1 b2 dec r1 r2 show ?thesis by (intro conjI)
qed

subsection \<open>C7: deleting a thread twice\<close>

lemma db_call_up: "db_error e = None \<Longrightarrow> db_call e r = Inr r"
  by (simp add: db_call_def)

lemma db_call_down: "db_error e = Some m \<Longrightarrow> db_call e r = Inl (OtherError m)"
  by (simp add: db_call_def)

lemma delete_first_absent:
  "tid \<notin> thread_id ` set st \<Longrightarrow> delete_first tid st = (st, 0)"
  by (induction st) auto

lemma delete_first_present:
  "tid \<in> thread_id ` set st \<Longrightarrow>
   snd (delete_first tid st) = 1 \<and>
   map thread_id (fst (delete_first tid st)) = remove1 tid (map thread_id st)"
  by (induction st) (auto split: prod.splits)

lemma delete_first_gone:
  assumes "tid \<in> thread_id ` set st" and "distinct (map thread_id st)"
  shows "tid \<notin> thread_id ` set (fst (delete_first tid st))"
proof -
  have "map thread_id (fst (delete_first tid st)) = remove1 tid (map thread_id st)"
    using delete_first_present [OF assms(1)] by simp
  moreover have "tid \<notin> set (remove1 tid (map thread_id st))"
    using assms(2) by simp
  ultimately show ?thesis
    by (metis set_map)
qed

lemma get_thread_delete_present:
  assumes "db_error e = None" and "tid \<in> thread_id ` set st"
  shows "get_thread e st DELETE tid =
     (\<lparr>status = 200, body = PDict [(''message'', PStr ''Thread deleted successfully'')]\<rparr>,
      fst (delete_first tid st))"
proof -
  obtain st' n where d: "delete_first tid st = (st', n)" by (cases "delete_first tid st")
  with delete_first_present [OF assms(2)] have "n = 1" by simp
  with d assms(1) show ?thesis
    by (simp add: get_thread_def get_thread_try_def delete_one_def db_call_up)
qed

lemma get_thread_delete_absent:
  assumes "db_error e = None" and "tid \<notin> thread_id ` set st"
  shows "get_thread e st DELETE tid =
     (\<lparr>status = 404, body = error_body ''Thread not found''\<rparr>, st)"
  using assms
  by (simp add: get_thread_def get_thread_try_def delete_one_def db_call_up delete_first_absent)

text \<open>
  C7. With the database reachable and thread identifiers distinct in the store (the
  invariant of the data model), deleting an identifier that is present succeeds, and
  deleting it again on the store the first call left answers 404.
\<close>

theorem delete_twice:
  assumes "db_error e1 = None" and "db_error e2 = None"
    and "tid \<in> thread_id ` set st" and "distinct (map thread_id st)"
  shows "fst (get_thread e1 st DELETE tid) =
           \<lparr>status = 200, body = PDict [(''message'', PStr ''Thread deleted successfully'')]\<rparr> \<and>
         fst (get_thread e2 (snd (get_thread e1 st DELETE tid)) DELETE tid) =
           \<lparr>status = 404, body = error_body ''Thread not found''\<rparr>"
proof -
  have first: "get_thread e1 st DELETE tid =
     (\<lparr>status = 200, body = PDict [(''message'', PStr ''Thread deleted successfully'')]\<rparr>,
      fst (delete_first tid st))"
    by (rule get_thread_delete_present [OF assms(1,3)])
  have "tid \<notin> thread_id ` set (fst (delete_first tid st))"
    by (rule delete_first_gone [OF assms(3,4)])
  then have "get_thread e2 (fst (delete_first tid st)) DELETE tid =
     (\<lparr>status = 404, body = error_body ''Thread not found''\<rparr>, fst (delete_first tid st))"
    by (rule get_thread_delete_absent [OF assms(2)])
  with first show ?thesis by simp
qed

theorem delete_twice_witness:
  "db_error env0 = None \<and> ''t1'' \<in> thread_id ` set store0 \<and> distinct (map thread_id store0) \<and>
   fst (get_thread env0 store0 DELETE ''t1'') =
     \<lparr>status = 200, body = PDict [(''message'', PStr ''Thread deleted successfully'')]\<rparr> \<and>
   fst (get_thread env0 (snd (get_thread env0 store0 DELETE ''t1'')) DELETE ''t1'') =
     \<lparr>status = 404, body = error_body ''Thread not found''\<rparr>"
proof -
  have a: "db_error env0 = None" by (simp add: env0_def)
  have b: "''t1'' \<in> thread_id ` set store0" by (simp add: store0_def)
  have c: "distinct (map thread_id store0)" by (simp add: store0_def)
  from delete_twice [OF a a b c] a b c show ?thesis by (intro conjI) simp_all
qed

subsection \<open>C8: reporting a message\<close>

lemma find_thread_absent:
  "tid \<notin> thread_id ` set st \<Longrightarrow> find (\<lambda>t. thread_id t = tid) st = None"
  by (auto simp: find_None_iff)

lemma find_thread_present:
  "tid \<in> thread_id ` set st \<Longrightarrow> \<exists>t. find (\<lambda>t. thread_id t = tid) st = Some t"
  by (cases "find (\<lambda>t. thread_id t = tid) st") (auto simp: find_None_iff)

lemma find_message_iff:
  "(find (\<lambda>m. msg_id m = mid) ms = None) = (mid \<notin> msg_id ` set ms)"
  by (auto simp: find_None_iff)

text \<open>
  C8. Reporting a message leaves the thread store exactly as it was, whatever the
  identifiers and whatever the outcome. With the database reachable, the answer is 404
  when no thread has the identifier or the thread found has no message with the message
  identifier, and 200 otherwise.
\<close>

theorem report_message_frame:
  "snd (report_message e st tid mid) = st \<and>
   (db_error e = None \<longrightarrow>
      (tid \<notin> thread_id ` set st \<longrightarrow>
         fst (report_message e st tid mid) =
           \<lparr>status = 404, body = error_body ''Thread not found''\<rparr>) \<and>
      (\<forall>t. find (\<lambda>t. thread_id t = tid) st = Some t \<longrightarrow>
         fst (report_message e st tid mid) =
           (if mid \<in> msg_id ` set (messages t)
            then \<lparr>status = 200, body = PDict [(''status'', PStr ''Message reported'')]\<rparr>
            else \<lparr>status = 404, body = error_body ''Message not found''\<rparr>)))"
proof (intro conjI impI allI)
  show "snd (report_message e st tid mid) = st"
    by (simp add: report_message_def split: sum.split)
next
  assume "db_error e = None" and "tid \<notin> thread_id ` set st"
  then show "fst (report_message e st tid mid) =
           \<lparr>status = 404, body = error_body ''Thread not found''\<rparr>"
    by (simp add: report_message_def report_message_try_def find_one_def db_call_up
        find_thread_absent)
next
  fix t
  assume up: "db_error e = None" and f: "find (\<lambda>t. thread_id t = tid) st = Some t"
  show "fst (report_message e st tid mid) =
           (if mid \<in> msg_id ` set (messages t)
            then \<lparr>status = 200, body = PDict [(''status'', PStr ''Message reported'')]\<rparr>
            else \<lparr>status = 404, body = error_body ''Message not found''\<rparr>)"
  proof (cases "find (\<lambda>m. msg_id m = mid) (messages t)")
    case None
    then have "mid \<notin> msg_id ` set (messages t)" by (simp add: find_message_iff)
    with None up f show ?thesis
      by (simp add: report_message_def report_message_try_def find_one_def db_call_up)
  next
    case (Some m)
    then have "mid \<in> msg_id ` set (messages t)"
      using find_message_iff [of mid "messages t"] by simp
    with Some up f show ?thesis
      by (simp add: report_message_def report_message_try_def find_one_def db_call_up)
  qed
qed

theorem report_message_frame_witness:
  "db_error env0 = None \<and> ''t9'' \<notin> thread_id ` set store0 \<and>
   find (\<lambda>t. thread_id t = ''t1'') store0 = Some (hd store0) \<and>
   ''m1'' \<in> msg_id ` set (messages (hd store0)) \<and>
   snd (report_message env0 store0 ''t1'' ''m1'') = store0 \<and>
   fst (report_message env0 store0 ''t9'' ''m1'') =
     \<lparr>status = 404, body = error_body ''Thread not found''\<rparr> \<and>
   fst (report_message env0 store0 ''t1'' ''m1'') =
     \<lparr>status = 200, body = PDict [(''status'', PStr ''Message reported'')]\<rparr>"
proof -
  have up: "db_error env0 = None" by (simp add: env0_def)
  have absent: "''t9'' \<notin> thread_id ` set store0" by (simp add: store0_def)
  have found: "find (\<lambda>t. thread_id t = ''t1'') store0 = Some (hd store0)"
    by (simp add: store0_def)
  have reported: "''m1'' \<in> msg_id ` set (messages (hd store0))"
    by (simp add: store0_def msg0_def)
  note r1 = report_message_frame [of env0 store0 "''t1''" "''m1''"]
  note r9 = report_message_frame [of env0 store0 "''t9''" "''m1''"]
  from r1 have "snd (report_message env0 store0 ''t1'' ''m1'') = store0" by (rule conjunct1)
  moreover from r9 up absent have "fst (report_message env0 store0 ''t9'' ''m1'') =
     \<lparr>status = 404, body = error_body ''Thread not found''\<rparr>" by blast
  moreover from r1 up found reported have "fst (report_message env0 store0 ''t1'' ''m1'') =
     \<lparr>status = 200, body = PDict [(''status'', PStr ''Message reported'')]\<rparr>"
    by (metis (no_types, lifting))
  ultimately show ?thesis using up absent found reported by (intro conjI)
qed

subsection \<open>C3: creating a thread\<close>

lemma missing_field_dict_iff:
  "missing_field (PDict kvs) k1 k2 = Inr (k1 \<notin> fst ` set kvs \<or> k2 \<notin> fst ` set kvs)"
  by (cases kvs) (auto simp: missing_field_def split: bool.splits)

lemma getitem_dict_some: "map_of kvs k = Some v \<Longrightarrow> getitem (PDict kvs) k = Inr v"
  by simp

lemma map_of_key: "map_of kvs k = Some v \<Longrightarrow> k \<in> fst ` set kvs"
  by (metis domI dom_map_of_conv_image_fst)

lemma insert_thread_status:
  "insert_thread e st nt = Inr (r, st') \<Longrightarrow> status r \<noteq> 400"
  by (auto simp: insert_thread_def split: sum.splits prod.splits)

lemma create_thread_try_status:
  assumes "create_thread_try e st (Inr (PDict kvs)) = Inr (r, st')"
    and "''title'' \<in> fst ` set kvs" and "''description'' \<in> fst ` set kvs"
  shows "status r \<noteq> 400"
proof -
  have mf: "missing_field (PDict kvs) ''title'' ''description'' = Inr False"
    using assms(2,3) by (simp add: missing_field_dict_iff)
  from assms(1) show ?thesis
    unfolding create_thread_try_def
    by (simp only: mf sum.case bool.case Let_def)
       (auto split: sum.splits dest: insert_thread_status)
qed

lemma create_thread_missing:
  assumes "''title'' \<notin> fst ` set kvs \<or> ''description'' \<notin> fst ` set kvs"
  shows "create_thread e st (Inr (PDict kvs)) =
     (\<lparr>status = 400, body = error_body ''Missing title or description''\<rparr>, st)"
proof -
  have mf: "missing_field (PDict kvs) ''title'' ''description'' = Inr True"
    using assms by (simp add: missing_field_dict_iff)
  show ?thesis
    unfolding create_thread_def create_thread_try_def
    by (simp only: mf sum.case bool.case prod.case)
qed

lemma create_thread_present_status:
  assumes "''title'' \<in> fst ` set kvs" and "''description'' \<in> fst ` set kvs"
  shows "status (fst (create_thread e st (Inr (PDict kvs)))) \<noteq> 400"
proof (cases "create_thread_try e st (Inr (PDict kvs))")
  case (Inl x)
  then show ?thesis by (simp add: create_thread_def internal_error_def)
next
  case (Inr p)
  obtain r st' where p: "p = (r, st')" by (cases p)
  with Inr create_thread_try_status [OF _ assms] have "status r \<noteq> 400" by blast
  with Inr p show ?thesis by (simp add: create_thread_def)
qed

lemma create_thread_stores:
  assumes "map_of kvs ''title'' = Some (PStr t)" and "map_of kvs ''description'' = Some (PStr d)"
    and "db_error e = None"
  shows "snd (create_thread e st (Inr (PDict kvs))) =
     st @ [\<lparr>oid = Some (new_oid e), thread_id = uuid4 e, title = strip t,
             description = strip d, messages = [], created_at = utcnow e\<rparr>]"
proof -
  have mf: "missing_field (PDict kvs) ''title'' ''description'' = Inr False"
    using assms(1,2) by (simp add: missing_field_dict_iff map_of_key)
  have g1: "getitem (PDict kvs) ''title'' = Inr (PStr t)"
    by (rule getitem_dict_some [OF assms(1)])
  have g2: "getitem (PDict kvs) ''description'' = Inr (PStr d)"
    by (rule getitem_dict_some [OF assms(2)])
  have ins: "insert_thread e st \<lparr>oid = None, thread_id = uuid4 e, title = strip t,
             description = strip d, messages = [], created_at = utcnow e\<rparr> =
     Inr (\<lparr>status = 500,
           body = PDict [(''error'', PStr ''Internal server error''),
                         (''details'', PStr ''Object of type ObjectId is not JSON serializable'')]\<rparr>,
          st @ [\<lparr>oid = Some (new_oid e), thread_id = uuid4 e, title = strip t,
             description = strip d, messages = [], created_at = utcnow e\<rparr>])"
    using assms(3)
    by (simp add: insert_thread_def insert_one_def db_call_up jsonify_thread_def Let_def)
  show ?thesis
    unfolding create_thread_def create_thread_try_def
    by (simp only: mf g1 g2 strip_val.simps ins sum.case bool.case prod.case Let_def snd_conv)
qed

lemma handle_threads_post: "handle_threads e st POST get_json = create_thread e st get_json"
  by (simp add: handle_threads_def)

subsection \<open>Thread identifiers along a run\<close>

lemma issued_fresh: "inj gen \<Longrightarrow> issued gen k st \<Longrightarrow> gen k \<notin> thread_id ` set st"
proof
  assume i: "inj gen" and s: "issued gen k st" and m: "gen k \<in> thread_id ` set st"
  from s m have "gen k \<in> gen ` {..<k}" by (auto simp: issued_def)
  then obtain j where "j < k" and "gen k = gen j" by auto
  with i show False by (auto dest: injD)
qed

lemma issued_later: "issued gen k st \<Longrightarrow> issued gen (Suc k) st"
  unfolding issued_def by (auto simp: lessThan_Suc)

lemma issued_append:
  assumes "inj gen" and "issued gen k st" and "thread_id d = gen k"
  shows "issued gen (Suc k) (st @ [d])"
proof -
  have "gen k \<notin> thread_id ` set st" by (rule issued_fresh [OF assms(1,2)])
  with assms(2,3) show ?thesis
    unfolding issued_def by (auto simp: lessThan_Suc)
qed

lemma delete_first_ids:
  "map thread_id (fst (delete_first tid st)) = remove1 tid (map thread_id st)"
  by (induction st) (auto split: prod.splits)

lemma issued_delete: "issued gen k st \<Longrightarrow> issued gen k (fst (delete_first tid st))"
proof -
  assume s: "issued gen k st"
  have m: "map thread_id (fst (delete_first tid st)) = remove1 tid (map thread_id st)"
    by (rule delete_first_ids)
  have "set (remove1 tid (map thread_id st)) \<subseteq> set (map thread_id st)"
    by (rule set_remove1_subset)
  then have sub: "thread_id ` set (fst (delete_first tid st)) \<subseteq> thread_id ` set st"
    by (metis m set_map)
  have "distinct (remove1 tid (map thread_id st))"
    using s by (simp add: issued_def)
  then have "distinct (map thread_id (fst (delete_first tid st)))" by (simp only: m)
  with sub s show ?thesis unfolding issued_def by blast
qed

lemma push_first_ids: "map thread_id (fst (push_first tid m st)) = map thread_id st"
  by (induction st) (auto split: prod.splits)

lemma issued_same_ids:
  "map thread_id st' = map thread_id st \<Longrightarrow> issued gen k st \<Longrightarrow> issued gen k st'"
  unfolding issued_def by (metis set_map)

lemma insert_thread_store:
  "insert_thread e st nt = Inr (r, st') \<Longrightarrow>
   \<exists>d. st' = st @ [d] \<and> thread_id d = thread_id nt"
  by (auto simp: insert_thread_def insert_one_def db_call_def Let_def
      split: sum.splits prod.splits option.splits)

lemma create_thread_try_store:
  "create_thread_try e st get_json = Inr (r, st') \<Longrightarrow>
   st' = st \<or> (\<exists>d. st' = st @ [d] \<and> thread_id d = uuid4 e)"
  unfolding create_thread_try_def Let_def
  by (auto split: sum.splits bool.splits dest!: insert_thread_store)

lemma create_thread_store:
  "snd (create_thread e st get_json) = st \<or>
   (\<exists>d. snd (create_thread e st get_json) = st @ [d] \<and> thread_id d = uuid4 e)"
proof (cases "create_thread_try e st get_json")
  case (Inl x)
  then show ?thesis by (simp add: create_thread_def)
next
  case (Inr p)
  obtain r st' where "p = (r, st')" by (cases p)
  with Inr create_thread_try_store [of e st get_json r st'] show ?thesis
    by (simp add: create_thread_def)
qed

lemma handle_threads_issued:
  assumes "inj gen" and "issued gen k st" and "uuid4 e = gen k"
  shows "issued gen (Suc k) (snd (handle_threads e st m get_json))"
proof (cases m)
  case POST
  from create_thread_store [of e st get_json] show ?thesis
  proof
    assume "snd (create_thread e st get_json) = st"
    with POST assms(2) show ?thesis by (simp add: handle_threads_def issued_later)
  next
    assume "\<exists>d. snd (create_thread e st get_json) = st @ [d] \<and> thread_id d = uuid4 e"
    then obtain d where d: "snd (create_thread e st get_json) = st @ [d]"
      and i: "thread_id d = uuid4 e" by blast
    from i assms(3) have "thread_id d = gen k" by simp
    then have "issued gen (Suc k) (st @ [d])" by (rule issued_append [OF assms(1,2)])
    with POST d show ?thesis by (simp add: handle_threads_def)
  qed
qed (use assms(2) in \<open>simp_all add: handle_threads_def issued_later\<close>)

lemma get_thread_store:
  "snd (get_thread e st m tid) = st \<or> snd (get_thread e st m tid) = fst (delete_first tid st)"
  by (auto simp: get_thread_def get_thread_try_def delete_one_def find_one_projected_def
      db_call_def split: http_method.splits sum.splits option.splits prod.splits if_splits)

lemma get_thread_issued:
  assumes "issued gen k st"
  shows "issued gen (Suc k) (snd (get_thread e st m tid))"
proof -
  from get_thread_store [of e st m tid]
  have "issued gen k (snd (get_thread e st m tid))"
  proof
    assume "snd (get_thread e st m tid) = st"
    with assms show ?thesis by simp
  next
    assume "snd (get_thread e st m tid) = fst (delete_first tid st)"
    with issued_delete [OF assms, of tid] show ?thesis by simp
  qed
  then show ?thesis by (rule issued_later)
qed

lemma push_first_result_ids:
  "push_first tid m st = (st', n) \<Longrightarrow> map thread_id st' = map thread_id st"
  using push_first_ids [of tid m st] by simp

lemma add_message_try_ids:
  "add_message_try e st tid get_json = Inr (r, st') \<Longrightarrow> map thread_id st' = map thread_id st"
  unfolding add_message_try_def update_one_push_def db_call_def Let_def
  by (auto split: sum.splits bool.splits option.splits prod.splits if_splits
      dest: push_first_result_ids)

lemma add_message_ids:
  "map thread_id (snd (add_message e st m tid get_json)) = map thread_id st"
proof (cases "add_message_try e st tid get_json")
  case (Inl x)
  then show ?thesis by (simp add: add_message_def)
next
  case (Inr p)
  obtain r st' where "p = (r, st')" by (cases p)
  with Inr add_message_try_ids [of e st tid get_json r st'] show ?thesis
    by (simp add: add_message_def)
qed

lemma report_message_store: "snd (report_message e st tid mid) = st"
  by (simp add: report_message_def split: sum.split)

lemma serve_issued:
  assumes "inj gen" and "issued gen k st" and "uuid4 e = gen k"
  shows "issued gen (Suc k) (snd (serve e st c))"
proof (cases c)
  case (CallThreads m get_json)
  then show ?thesis using handle_threads_issued [OF assms] by simp
next
  case (CallThread m tid)
  then show ?thesis using get_thread_issued [OF assms(2)] by simp
next
  case (CallMessages m tid get_json)
  have "issued gen k (snd (add_message e st m tid get_json))"
    by (rule issued_same_ids [OF add_message_ids assms(2)])
  with CallMessages show ?thesis by (simp add: issued_later)
next
  case (CallReport tid mid)
  with assms(2) show ?thesis by (simp add: report_message_store issued_later)
qed

lemma run_issued:
  "inj gen \<Longrightarrow> issued gen k st \<Longrightarrow> issued gen (k + length evs) (run gen k st evs)"
proof (induction evs arbitrary: k st)
  case Nil
  then show ?case by simp
next
  case (Cons ev evs)
  have "uuid4 (env_of gen k ev) = gen k" by (simp add: env_of_def)
  then have "issued gen (Suc k) (snd (serve (env_of gen k ev) st (api ev)))"
    by (rule serve_issued [OF Cons.prems])
  from Cons.IH [OF Cons.prems(1) this] show ?case by simp
qed

lemma run_from_empty_issued: "inj gen \<Longrightarrow> issued gen (length evs) (run gen 0 [] evs)"
  using run_issued [of gen 0 "[]" evs] by (simp add: issued_def)

lemma inj_sample_gen: "inj sample_gen"
proof (rule injI)
  fix j k assume "sample_gen j = sample_gen k"
  then have "length (sample_gen j) = length (sample_gen k)" by simp
  then show "j = k" by (simp add: sample_gen_def)
qed

text \<open>
  C3, as the code has it. For a body that is a JSON object, creating a thread answers 400
  exactly when the \<^verbatim>\<open>title\<close> or the \<^verbatim>\<open>description\<close> key is missing, and then the store is
  unchanged; the trimmed title is not required to be non-empty. When both are strings
  and the database is reachable, the store gains exactly one thread, last, with the
  generated identifier, the trimmed title and description, no messages and the creation
  time. In every store that a run of requests produces from the empty collection, with
  \<^verbatim>\<open>uuid4\<close> never repeating a value, the generated identifier is not the identifier of any
  thread in the store, and the identifiers are distinct after the request. (The status
  of the answer on the path that stores the thread is not part of the statement.)
\<close>

theorem create_thread_amended:
  "(status (fst (handle_threads e st POST (Inr (PDict kvs)))) = 400) =
     (''title'' \<notin> fst ` set kvs \<or> ''description'' \<notin> fst ` set kvs) \<and>
   (''title'' \<notin> fst ` set kvs \<or> ''description'' \<notin> fst ` set kvs \<longrightarrow>
      snd (handle_threads e st POST (Inr (PDict kvs))) = st) \<and>
   (\<forall>t d. map_of kvs ''title'' = Some (PStr t) \<and> map_of kvs ''description'' = Some (PStr d) \<and>
          db_error e = None \<longrightarrow>
      snd (handle_threads e st POST (Inr (PDict kvs))) =
        st @ [\<lparr>oid = Some (new_oid e), thread_id = uuid4 e, title = strip t,
                description = strip d, messages = [], created_at = utcnow e\<rparr>]) \<and>
   (\<forall>gen evs. inj gen \<and> st = run gen 0 [] evs \<and> uuid4 e = gen (length evs) \<longrightarrow>
      uuid4 e \<notin> thread_id ` set st \<and>
      distinct (map thread_id (snd (handle_threads e st POST (Inr (PDict kvs))))))"
proof (intro conjI allI impI)
  show "(status (fst (handle_threads e st POST (Inr (PDict kvs)))) = 400) =
     (''title'' \<notin> fst ` set kvs \<or> ''description'' \<notin> fst ` set kvs)"
  proof (cases "''title'' \<notin> fst ` set kvs \<or> ''description'' \<notin> fst ` set kvs")
    case True
    then show ?thesis by (simp add: handle_threads_post create_thread_missing)
  next
    case False
    then show ?thesis
      using create_thread_present_status [of kvs e st] by (simp add: handle_threads_post)
  qed
next
  assume "''title'' \<notin> fst ` set kvs \<or> ''description'' \<notin> fst ` set kvs"
  then show "snd (handle_threads e st POST (Inr (PDict kvs))) = st"
    by (simp add: handle_threads_post create_thread_missing)
next
  fix t d
  assume h: "map_of kvs ''title'' = Some (PStr t) \<and>
             map_of kvs ''description'' = Some (PStr d) \<and> db_error e = None"
  then have "snd (create_thread e st (Inr (PDict kvs))) =
        st @ [\<lparr>oid = Some (new_oid e), thread_id = uuid4 e, title = strip t,
                description = strip d, messages = [], created_at = utcnow e\<rparr>]"
    by (intro create_thread_stores) simp_all
  then show "snd (handle_threads e st POST (Inr (PDict kvs))) =
        st @ [\<lparr>oid = Some (new_oid e), thread_id = uuid4 e, title = strip t,
                description = strip d, messages = [], created_at = utcnow e\<rparr>]"
    by (simp only: handle_threads_post)
next
  fix gen :: "nat \<Rightarrow> string" and evs :: "event list"
  assume h: "inj gen \<and> st = run gen 0 [] evs \<and> uuid4 e = gen (length evs)"
  then have i: "inj gen" and u: "uuid4 e = gen (length evs)" by simp_all
  from h have s: "issued gen (length evs) st" by (simp add: run_from_empty_issued)
  from issued_fresh [OF i s] u show "uuid4 e \<notin> thread_id ` set st" by simp
next
  fix gen :: "nat \<Rightarrow> string" and evs :: "event list"
  assume h: "inj gen \<and> st = run gen 0 [] evs \<and> uuid4 e = gen (length evs)"
  then have i: "inj gen" and u: "uuid4 e = gen (length evs)" by simp_all
  from h have s: "issued gen (length evs) st" by (simp add: run_from_empty_issued)
  have "issued gen (Suc (length evs)) (snd (handle_threads e st POST (Inr (PDict kvs))))"
    by (rule handle_threads_issued [OF i s u])
  then show "distinct (map thread_id (snd (handle_threads e st POST (Inr (PDict kvs)))))"
    by (simp add: issued_def)
qed

theorem create_thread_blank_title_counterexample:
  "strip ''   '' = [] \<and>
   status (fst (handle_threads env0 store0 POST
     (Inr (PDict [(''title'', PStr ''   ''), (''description'', PStr ''About nothing'')])))) \<noteq> 400"
proof
  show "strip ''   '' = []"
    by (simp add: strip_def isspace_def)
  show "status (fst (handle_threads env0 store0 POST
     (Inr (PDict [(''title'', PStr ''   ''), (''description'', PStr ''About nothing'')])))) \<noteq> 400"
    by (simp add: handle_threads_def create_thread_def create_thread_try_def missing_field_def insert_thread_def
        insert_one_def db_call_def jsonify_thread_def env0_def Let_def)
qed

theorem create_thread_amended_witness:
  "inj sample_gen \<and> uuid4 env1 = sample_gen (length events0) \<and>
   map_of [(''title'', PStr '' Plans ''), (''description'', PStr ''Q3'')] ''title'' =
     Some (PStr '' Plans '') \<and>
   map_of [(''title'', PStr '' Plans ''), (''description'', PStr ''Q3'')] ''description'' =
     Some (PStr ''Q3'') \<and>
   db_error env1 = None \<and>
   ''title'' \<notin> fst ` set [(''description'', PStr ''Q3'')] \<and>
   map thread_id (run sample_gen 0 [] events0) = [''id-''] \<and>
   status (fst (handle_threads env1 (run sample_gen 0 [] events0) POST
                  (Inr (PDict [(''description'', PStr ''Q3'')])))) = 400 \<and>
   snd (handle_threads env1 (run sample_gen 0 [] events0) POST
          (Inr (PDict [(''description'', PStr ''Q3'')]))) = run sample_gen 0 [] events0 \<and>
   snd (handle_threads env1 (run sample_gen 0 [] events0) POST
          (Inr (PDict [(''title'', PStr '' Plans ''), (''description'', PStr ''Q3'')]))) =
     run sample_gen 0 [] events0 @
       [\<lparr>oid = Some 7, thread_id = ''id-xx'', title = ''Plans'', description = ''Q3'',
         messages = [], created_at = ''2024-05-01T10:00:00''\<rparr>] \<and>
   uuid4 env1 \<notin> thread_id ` set (run sample_gen 0 [] events0) \<and>
   distinct (map thread_id (snd (handle_threads env1 (run sample_gen 0 [] events0) POST
          (Inr (PDict [(''title'', PStr '' Plans ''), (''description'', PStr ''Q3'')])))))"
proof -
  let ?kvs = "[(''title'', PStr '' Plans ''), (''description'', PStr ''Q3'')]"
  let ?bad = "[(''description'', PStr ''Q3'')]"
  let ?st = "run sample_gen 0 [] events0"
  have i: "inj sample_gen" by (rule inj_sample_gen)
  have u: "uuid4 env1 = sample_gen (length events0)" by code_simp
  have a: "map_of ?kvs ''title'' = Some (PStr '' Plans '')" by simp
  have b: "map_of ?kvs ''description'' = Some (PStr ''Q3'')" by simp
  have c: "db_error env1 = None" by (simp add: env1_def)
  have g: "''title'' \<notin> fst ` set ?bad" by simp
  have ids: "map thread_id ?st = [''id-'']" by code_simp
  have s1: "strip '' Plans '' = ''Plans''" by (simp add: strip_def isspace_def)
  have s2: "strip ''Q3'' = ''Q3''" by (simp add: strip_def isspace_def)
  note good = create_thread_amended [of env1 ?st ?kvs]
  note bad = create_thread_amended [of env1 ?st ?bad]
  from bad g have r1: "status (fst (handle_threads env1 ?st POST (Inr (PDict ?bad)))) = 400"
    by blast
  have r2: "snd (handle_threads env1 ?st POST (Inr (PDict ?bad))) = ?st"
    by (rule bad [THEN conjunct2, THEN conjunct1, rule_format]) (rule disjI1, rule g)
  have r3: "snd (handle_threads env1 ?st POST (Inr (PDict ?kvs))) =
     ?st @ [\<lparr>oid = Some (new_oid env1), thread_id = uuid4 env1, title = strip '' Plans '',
              description = strip ''Q3'', messages = [], created_at = utcnow env1\<rparr>]"
    by (rule good [THEN conjunct2, THEN conjunct2, THEN conjunct1, rule_format])
       (intro conjI a b c)
  have r3': "snd (handle_threads env1 ?st POST (Inr (PDict ?kvs))) =
     ?st @ [\<lparr>oid = Some 7, thread_id = ''id-xx'', title = ''Plans'', description = ''Q3'',
              messages = [], created_at = ''2024-05-01T10:00:00''\<rparr>]"
    unfolding r3 s1 s2 by (simp add: env1_def)
  have r45: "uuid4 env1 \<notin> thread_id ` set ?st \<and>
             distinct (map thread_id (snd (handle_threads env1 ?st POST (Inr (PDict ?kvs)))))"
    by (rule good [THEN conjunct2, THEN conjunct2, THEN conjunct2, rule_format,
                   of sample_gen events0])
       (intro conjI i refl u)
  from i u a b c g ids r1 r2 r3' r45 [THEN conjunct1] r45 [THEN conjunct2]
  show ?thesis by (intro conjI)
qed

subsection \<open>C4: appending a message\<close>

lemma push_first_absent:
  "tid \<notin> thread_id ` set st \<Longrightarrow> push_first tid m st = (st, 0)"
  by (induction st) auto

lemma push_first_present:
  "tid \<in> thread_id ` set st \<Longrightarrow>
   \<exists>pre th post. st = pre @ th # post \<and> tid \<notin> thread_id ` set pre \<and> thread_id th = tid \<and>
     push_first tid m st = (pre @ th\<lparr>messages := messages th @ [m]\<rparr> # post, 1)"
proof (induction st)
  case Nil
  then show ?case by simp
next
  case (Cons a st)
  show ?case
  proof (cases "thread_id a = tid")
    case True
    then have "a # st = [] @ a # st \<and> tid \<notin> thread_id ` set [] \<and> thread_id a = tid \<and>
      push_first tid m (a # st) = ([] @ a\<lparr>messages := messages a @ [m]\<rparr> # st, 1)"
      by simp
    then show ?thesis by blast
  next
    case False
    with Cons.prems have "tid \<in> thread_id ` set st" by auto
    from Cons.IH [OF this] obtain pre th post where
      st: "st = pre @ th # post" and pre: "tid \<notin> thread_id ` set pre" and
      th: "thread_id th = tid" and
      pf: "push_first tid m st = (pre @ th\<lparr>messages := messages th @ [m]\<rparr> # post, 1)"
      by blast
    from False st pre th pf
    have "a # st = (a # pre) @ th # post \<and> tid \<notin> thread_id ` set (a # pre) \<and>
      thread_id th = tid \<and>
      push_first tid m (a # st) = ((a # pre) @ th\<lparr>messages := messages th @ [m]\<rparr> # post, 1)"
      by auto
    then show ?thesis by blast
  qed
qed

lemma add_message_missing:
  assumes "''text'' \<notin> fst ` set kvs \<or> ''sender'' \<notin> fst ` set kvs"
  shows "add_message e st POST tid (Inr (PDict kvs)) =
     (\<lparr>status = 400, body = error_body ''Missing text or sender''\<rparr>, st)"
proof -
  have mf: "missing_field (PDict kvs) ''text'' ''sender'' = Inr True"
    using assms by (simp add: missing_field_dict_iff)
  have "add_message_try e st tid (Inr (PDict kvs)) =
     Inr (\<lparr>status = 400, body = error_body ''Missing text or sender''\<rparr>, st)"
    unfolding add_message_try_def by (simp only: mf sum.case bool.case)
  then show ?thesis by (simp add: add_message_def)
qed

lemma add_message_no_thread:
  assumes "''text'' \<in> fst ` set kvs" and "''sender'' \<in> fst ` set kvs"
    and "db_error e = None" and "tid \<notin> thread_id ` set st"
  shows "add_message e st POST tid (Inr (PDict kvs)) =
     (\<lparr>status = 404, body = error_body ''Thread not found''\<rparr>, st)"
proof -
  have mf: "missing_field (PDict kvs) ''text'' ''sender'' = Inr False"
    using assms(1,2) by (simp add: missing_field_dict_iff)
  have fo: "find_one e st tid = Inr None"
    using assms(3,4) by (simp add: find_one_def db_call_up find_thread_absent)
  have "add_message_try e st tid (Inr (PDict kvs)) =
     Inr (\<lparr>status = 404, body = error_body ''Thread not found''\<rparr>, st)"
    unfolding add_message_try_def by (simp only: mf fo sum.case bool.case option.case)
  then show ?thesis by (simp add: add_message_def)
qed

lemma add_message_appends:
  assumes "map_of kvs ''text'' = Some (PStr t)" and "map_of kvs ''sender'' = Some (PStr s)"
    and "db_error e = None" and "tid \<in> thread_id ` set st"
  shows "\<exists>pre th post. st = pre @ th # post \<and> tid \<notin> thread_id ` set pre \<and> thread_id th = tid \<and>
     add_message e st POST tid (Inr (PDict kvs)) =
       (\<lparr>status = 201,
         body = message_json \<lparr>msg_id = uuid4 e, msg_text = strip t, sender = strip s,
                              timestamp = utcnow e, pinned = False\<rparr>\<rparr>,
        pre @ th\<lparr>messages := messages th @
                   [\<lparr>msg_id = uuid4 e, msg_text = strip t, sender = strip s,
                     timestamp = utcnow e, pinned = False\<rparr>]\<rparr> # post)"
proof -
  let ?m = "\<lparr>msg_id = uuid4 e, msg_text = strip t, sender = strip s,
             timestamp = utcnow e, pinned = False\<rparr>"
  have mf: "missing_field (PDict kvs) ''text'' ''sender'' = Inr False"
    using assms(1,2) by (simp add: missing_field_dict_iff map_of_key)
  obtain th0 where "find (\<lambda>t. thread_id t = tid) st = Some th0"
    using find_thread_present [OF assms(4)] by blast
  then have fo: "find_one e st tid = Inr (Some th0)"
    using assms(3) by (simp add: find_one_def db_call_up)
  have g1: "getitem (PDict kvs) ''text'' = Inr (PStr t)"
    by (rule getitem_dict_some [OF assms(1)])
  have g2: "getitem (PDict kvs) ''sender'' = Inr (PStr s)"
    by (rule getitem_dict_some [OF assms(2)])
  obtain pre th post where
    st: "st = pre @ th # post" and pre: "tid \<notin> thread_id ` set pre" and
    th: "thread_id th = tid" and
    pf: "push_first tid ?m st = (pre @ th\<lparr>messages := messages th @ [?m]\<rparr> # post, 1)"
    using push_first_present [OF assms(4), of ?m] by blast
  have up: "update_one_push e st tid ?m =
              Inr (pre @ th\<lparr>messages := messages th @ [?m]\<rparr> # post, 1)"
    using assms(3) pf by (simp add: update_one_push_def db_call_up)
  have "add_message_try e st tid (Inr (PDict kvs)) =
     Inr (\<lparr>status = 201, body = message_json ?m\<rparr>,
          pre @ th\<lparr>messages := messages th @ [?m]\<rparr> # post)"
    unfolding add_message_try_def
    by (simp only: mf fo g1 g2 strip_val.simps up sum.case bool.case option.case prod.case
        Let_def if_True refl)
  then have "add_message e st POST tid (Inr (PDict kvs)) =
     (\<lparr>status = 201, body = message_json ?m\<rparr>,
      pre @ th\<lparr>messages := messages th @ [?m]\<rparr> # post)"
    by (simp add: add_message_def)
  with st pre th show ?thesis by blast
qed

text \<open>
  C4, as the code has it. For a body that is a JSON object: when the \<^verbatim>\<open>text\<close> or the
  \<^verbatim>\<open>sender\<close> key is missing the answer is 400 and the store is unchanged, whether or not
  the thread exists; the trimmed values are not required to be non-empty. When both
  keys are present, the database is reachable and no thread has the identifier, the
  answer is 404 and the store is unchanged. When both are strings and a thread has the
  identifier, the answer is 201 with the new message, and the store changes in one
  place only: the first thread with that identifier has its message sequence extended
  by exactly that message, which carries the generated identifier, the trimmed text and
  sender, the timestamp and \<open>pinned = False\<close>.
\<close>

theorem add_message_amended:
  "(''text'' \<notin> fst ` set kvs \<or> ''sender'' \<notin> fst ` set kvs \<longrightarrow>
      add_message e st POST tid (Inr (PDict kvs)) =
        (\<lparr>status = 400, body = error_body ''Missing text or sender''\<rparr>, st)) \<and>
   (''text'' \<in> fst ` set kvs \<and> ''sender'' \<in> fst ` set kvs \<and> db_error e = None \<and>
    tid \<notin> thread_id ` set st \<longrightarrow>
      add_message e st POST tid (Inr (PDict kvs)) =
        (\<lparr>status = 404, body = error_body ''Thread not found''\<rparr>, st)) \<and>
   (\<forall>t s. map_of kvs ''text'' = Some (PStr t) \<and> map_of kvs ''sender'' = Some (PStr s) \<and>
          db_error e = None \<and> tid \<in> thread_id ` set st \<longrightarrow>
      (\<exists>pre th post. st = pre @ th # post \<and> tid \<notin> thread_id ` set pre \<and> thread_id th = tid \<and>
         add_message e st POST tid (Inr (PDict kvs)) =
           (\<lparr>status = 201,
             body = message_json \<lparr>msg_id = uuid4 e, msg_text = strip t, sender = strip s,
                                  timestamp = utcnow e, pinned = False\<rparr>\<rparr>,
            pre @ th\<lparr>messages := messages th @
                       [\<lparr>msg_id = uuid4 e, msg_text = strip t, sender = strip s,
                         timestamp = utcnow e, pinned = False\<rparr>]\<rparr> # post)))"
proof (intro conjI allI impI)
  assume "''text'' \<notin> fst ` set kvs \<or> ''sender'' \<notin> fst ` set kvs"
  then show "add_message e st POST tid (Inr (PDict kvs)) =
        (\<lparr>status = 400, body = error_body ''Missing text or sender''\<rparr>, st)"
    by (rule add_message_missing)
next
  assume "''text'' \<in> fst ` set kvs \<and> ''sender'' \<in> fst ` set kvs \<and> db_error e = None \<and>
    tid \<notin> thread_id ` set st"
  then show "add_message e st POST tid (Inr (PDict kvs)) =
        (\<lparr>status = 404, body = error_body ''Thread not found''\<rparr>, st)"
    by (intro add_message_no_thread) simp_all
next
  fix t s
  assume "map_of kvs ''text'' = Some (PStr t) \<and> map_of kvs ''sender'' = Some (PStr s) \<and>
          db_error e = None \<and> tid \<in> thread_id ` set st"
  then show "\<exists>pre th post. st = pre @ th # post \<and> tid \<notin> thread_id ` set pre \<and>
         thread_id th = tid \<and>
         add_message e st POST tid (Inr (PDict kvs)) =
           (\<lparr>status = 201,
             body = message_json \<lparr>msg_id = uuid4 e, msg_text = strip t, sender = strip s,
                                  timestamp = utcnow e, pinned = False\<rparr>\<rparr>,
            pre @ th\<lparr>messages := messages th @
                       [\<lparr>msg_id = uuid4 e, msg_text = strip t, sender = strip s,
                         timestamp = utcnow e, pinned = False\<rparr>]\<rparr> # post)"
    by (intro add_message_appends) simp_all
qed

theorem add_message_blank_text_counterexample:
  "strip ''  '' = [] \<and>
   status (fst (add_message env0 store0 POST ''t1''
     (Inr (PDict [(''text'', PStr ''  ''), (''sender'', PStr ''ann'')])))) = 201"
proof
  show "strip ''  '' = []"
    by (simp add: strip_def isspace_def)
  show "status (fst (add_message env0 store0 POST ''t1''
     (Inr (PDict [(''text'', PStr ''  ''), (''sender'', PStr ''ann'')])))) = 201"
    by (simp add: add_message_def add_message_try_def missing_field_def find_one_def
        update_one_push_def db_call_def env0_def store0_def Let_def)
qed

theorem add_message_amended_witness:
  "''text'' \<notin> fst ` set [(''sender'', PStr ''bob'')] \<and>
   map_of [(''text'', PStr '' hi ''), (''sender'', PStr ''bob'')] ''text'' = Some (PStr '' hi '') \<and>
   map_of [(''text'', PStr '' hi ''), (''sender'', PStr ''bob'')] ''sender'' = Some (PStr ''bob'') \<and>
   db_error env0 = None \<and> ''t2'' \<in> thread_id ` set store0 \<and> ''t9'' \<notin> thread_id ` set store0 \<and>
   add_message env0 store0 POST ''t2'' (Inr (PDict [(''sender'', PStr ''bob'')])) =
     (\<lparr>status = 400, body = error_body ''Missing text or sender''\<rparr>, store0) \<and>
   add_message env0 store0 POST ''t9''
       (Inr (PDict [(''text'', PStr '' hi ''), (''sender'', PStr ''bob'')])) =
     (\<lparr>status = 404, body = error_body ''Thread not found''\<rparr>, store0) \<and>
   (\<exists>pre th post. store0 = pre @ th # post \<and> ''t2'' \<notin> thread_id ` set pre \<and>
      thread_id th = ''t2'' \<and>
      add_message env0 store0 POST ''t2''
          (Inr (PDict [(''text'', PStr '' hi ''), (''sender'', PStr ''bob'')])) =
        (\<lparr>status = 201,
          body = message_json \<lparr>msg_id = uuid4 env0, msg_text = strip '' hi '',
                               sender = strip ''bob'', timestamp = utcnow env0,
                               pinned = False\<rparr>\<rparr>,
         pre @ th\<lparr>messages := messages th @
                    [\<lparr>msg_id = uuid4 env0, msg_text = strip '' hi '', sender = strip ''bob'',
                      timestamp = utcnow env0, pinned = False\<rparr>]\<rparr> # post))"
proof -
  let ?kvs = "[(''text'', PStr '' hi ''), (''sender'', PStr ''bob'')]"
  let ?bad = "[(''sender'', PStr ''bob'')]"
  have a: "''text'' \<notin> fst ` set ?bad" by simp
  have b: "map_of ?kvs ''text'' = Some (PStr '' hi '')" by simp
  have c: "map_of ?kvs ''sender'' = Some (PStr ''bob'')" by simp
  have d: "db_error env0 = None" by (simp add: env0_def)
  have f: "''t2'' \<in> thread_id ` set store0" by (simp add: store0_def)
  have g: "''t9'' \<notin> thread_id ` set store0" by (simp add: store0_def)
  have k: "''text'' \<in> fst ` set ?kvs \<and> ''sender'' \<in> fst ` set ?kvs" by simp
  from add_message_amended [of ?bad env0 store0 "''t2''"] a
  have r1: "add_message env0 store0 POST ''t2'' (Inr (PDict ?bad)) =
     (\<lparr>status = 400, body = error_body ''Missing text or sender''\<rparr>, store0)"
    by blast
  from add_message_amended [of ?kvs env0 store0 "''t9''"] k d g
  have r2: "add_message env0 store0 POST ''t9'' (Inr (PDict ?kvs)) =
     (\<lparr>status = 404, body = error_body ''Thread not found''\<rparr>, store0)"
    by blast
  from add_message_amended [of ?kvs env0 store0 "''t2''"] b c d f
  have r3: "\<exists>pre th post. store0 = pre @ th # post \<and> ''t2'' \<notin> thread_id ` set pre \<and>
      thread_id th = ''t2'' \<and>
      add_message env0 store0 POST ''t2'' (Inr (PDict ?kvs)) =
        (\<lparr>status = 201,
          body = message_json \<lparr>msg_id = uuid4 env0, msg_text = strip '' hi '',
                               sender = strip ''bob'', timestamp = utcnow env0,
                               pinned = False\<rparr>\<rparr>,
         pre @ th\<lparr>messages := messages th @
                    [\<lparr>msg_id = uuid4 env0, msg_text = strip '' hi '', sender = strip ''bob'',
                      timestamp = utcnow env0, pinned = False\<rparr>]\<rparr> # post)"
    by blast
  from a b c d f g r1 r2 r3 show ?thesis by (intro conjI)
qed

subsection \<open>C9: temp-file removal\<close>

lemma map_of_unlinked: "map_of (filter (\<lambda>kv. fst kv \<noteq> p) f) p = None"
  by (induction f) auto

lemma cleanup_file_skip:
  "filepath = [] \<or> \<not> path_exists (fs s) filepath \<Longrightarrow> cleanup_file s filepath = Inr s"
  by (auto simp: cleanup_file_def cleanup_file_try_def)

lemma cleanup_file_removable:
  assumes "filepath \<noteq> []" and "map_of (fs s) filepath = Some Removable"
  shows "cleanup_file s filepath =
     Inr (s\<lparr>fs := filter (\<lambda>kv. fst kv \<noteq> filepath) (fs s),
            temp_files := (if filepath \<in> set (temp_files s)
                           then remove1 filepath (temp_files s) else temp_files s)\<rparr>)"
  using assms
  by (simp add: cleanup_file_def cleanup_file_try_def path_exists_def os_unlink_def)

lemma cleanup_file_protected:
  assumes "filepath \<noteq> []" and "map_of (fs s) filepath = Some Protected"
  shows "cleanup_file s filepath =
     Inr (s\<lparr>warnings := warnings s @
              [''Failed to delete '' @ filepath @ '': '' @ ''Permission denied'']\<rparr>)"
  using assms
  by (simp add: cleanup_file_def cleanup_file_try_def path_exists_def os_unlink_def)

lemma cleanup_file_cases:
  "filepath = [] \<or> \<not> path_exists (fs s) filepath \<or>
   (filepath \<noteq> [] \<and> map_of (fs s) filepath = Some Removable) \<or>
   (filepath \<noteq> [] \<and> map_of (fs s) filepath = Some Protected)"
proof (cases "map_of (fs s) filepath")
  case None
  then show ?thesis by (simp add: path_exists_def)
next
  case (Some k)
  then show ?thesis by (cases k) auto
qed

text \<open>
  C9. \<open>cleanup_file\<close> returns normally on every state and every path: no exception
  leaves it. An exception raised by \<^verbatim>\<open>os.unlink\<close> (here: a protected file) is turned into a
  logged warning; a path that does not exist is skipped without a call to \<^verbatim>\<open>os.unlink\<close>.
  Calling it again on the same path leaves the files and the registry as the first call
  left them, and leaves the whole state untouched unless the file is protected, in which
  case the second call only logs the same warning again.
\<close>

theorem cleanup_file_never_raises:
  "(\<exists>s1. cleanup_file s filepath = Inr s1) \<and>
   (filepath \<noteq> [] \<and> map_of (fs s) filepath = Some Protected \<longrightarrow>
      cleanup_file s filepath =
        Inr (s\<lparr>warnings := warnings s @
                 [''Failed to delete '' @ filepath @ '': '' @ ''Permission denied'']\<rparr>)) \<and>
   (\<forall>s1. cleanup_file s filepath = Inr s1 \<longrightarrow>
      (\<exists>s2. cleanup_file s1 filepath = Inr s2 \<and> fs s2 = fs s1 \<and>
            temp_files s2 = temp_files s1 \<and>
            (map_of (fs s) filepath \<noteq> Some Protected \<longrightarrow> s2 = s1)))"
proof (intro conjI allI impI)
  show "\<exists>s1. cleanup_file s filepath = Inr s1"
    by (simp add: cleanup_file_def split: sum.split)
next
  assume "filepath \<noteq> [] \<and> map_of (fs s) filepath = Some Protected"
  then show "cleanup_file s filepath =
        Inr (s\<lparr>warnings := warnings s @
                 [''Failed to delete '' @ filepath @ '': '' @ ''Permission denied'']\<rparr>)"
    by (intro cleanup_file_protected) simp_all
next
  fix s1
  assume first: "cleanup_file s filepath = Inr s1"
  consider (skip) "filepath = [] \<or> \<not> path_exists (fs s) filepath"
    | (removable) "filepath \<noteq> []" "map_of (fs s) filepath = Some Removable"
    | (protected) "filepath \<noteq> []" "map_of (fs s) filepath = Some Protected"
    using cleanup_file_cases [of filepath s] by blast
  then show "\<exists>s2. cleanup_file s1 filepath = Inr s2 \<and> fs s2 = fs s1 \<and>
            temp_files s2 = temp_files s1 \<and>
            (map_of (fs s) filepath \<noteq> Some Protected \<longrightarrow> s2 = s1)"
  proof cases
    case skip
    with first have "s1 = s" by (simp add: cleanup_file_skip)
    with skip show ?thesis by (simp add: cleanup_file_skip)
  next
    case removable
    with first have "fs s1 = filter (\<lambda>kv. fst kv \<noteq> filepath) (fs s)"
      by (auto simp: cleanup_file_removable)
    then have "\<not> path_exists (fs s1) filepath"
      by (simp add: path_exists_def map_of_unlinked)
    then have "cleanup_file s1 filepath = Inr s1" by (simp add: cleanup_file_skip)
    then show ?thesis by simp
  next
    case protected
    with first have s1: "s1 = s\<lparr>warnings := warnings s @
              [''Failed to delete '' @ filepath @ '': '' @ ''Permission denied'']\<rparr>"
      by (simp add: cleanup_file_protected)
    then have "map_of (fs s1) filepath = Some Protected" using protected by simp
    with protected(1) have "cleanup_file s1 filepath =
       Inr (s1\<lparr>warnings := warnings s1 @
              [''Failed to delete '' @ filepath @ '': '' @ ''Permission denied'']\<rparr>)"
      by (rule cleanup_file_protected)
    with protected show ?thesis by simp
  qed
qed

theorem cleanup_file_never_raises_witness:
  "''/tmp/b.pdf'' \<noteq> [] \<and> map_of (fs sys0) ''/tmp/b.pdf'' = Some Protected \<and>
   map_of (fs sys0) ''/tmp/a.pdf'' \<noteq> Some Protected \<and>
   cleanup_file sys0 ''/tmp/b.pdf'' =
     Inr (sys0\<lparr>warnings := [''Failed to delete /tmp/b.pdf: Permission denied'']\<rparr>) \<and>
   cleanup_file sys0 ''/tmp/a.pdf'' =
     Inr \<lparr>fs = [(''/tmp/b.pdf'', Protected)], temp_files = [''/tmp/b.pdf''], warnings = []\<rparr> \<and>
   cleanup_file \<lparr>fs = [(''/tmp/b.pdf'', Protected)], temp_files = [''/tmp/b.pdf''],
                 warnings = []\<rparr> ''/tmp/a.pdf'' =
     Inr \<lparr>fs = [(''/tmp/b.pdf'', Protected)], temp_files = [''/tmp/b.pdf''], warnings = []\<rparr>"
proof -
  let ?s1 = "\<lparr>fs = [(''/tmp/b.pdf'', Protected)], temp_files = [''/tmp/b.pdf''],
              warnings = []\<rparr>"
  have a: "''/tmp/b.pdf'' \<noteq> []" by simp
  have b: "map_of (fs sys0) ''/tmp/b.pdf'' = Some Protected" by (simp add: sys0_def)
  have c: "map_of (fs sys0) ''/tmp/a.pdf'' \<noteq> Some Protected" by (simp add: sys0_def)
  have first: "cleanup_file sys0 ''/tmp/a.pdf'' = Inr ?s1"
    by (simp add: cleanup_file_def cleanup_file_try_def path_exists_def os_unlink_def sys0_def)
  from cleanup_file_never_raises [of sys0 "''/tmp/b.pdf''"] a b
  have "cleanup_file sys0 ''/tmp/b.pdf'' =
     Inr (sys0\<lparr>warnings := warnings sys0 @
       [''Failed to delete '' @ ''/tmp/b.pdf'' @ '': '' @ ''Permission denied'']\<rparr>)"
    by blast
  then have r1: "cleanup_file sys0 ''/tmp/b.pdf'' =
     Inr (sys0\<lparr>warnings := [''Failed to delete /tmp/b.pdf: Permission denied'']\<rparr>)"
    by (simp add: sys0_def)
  from cleanup_file_never_raises [of sys0 "''/tmp/a.pdf''"] first c
  obtain s2 where "cleanup_file ?s1 ''/tmp/a.pdf'' = Inr s2" and "s2 = ?s1"
    by blast
  then have r2: "cleanup_file ?s1 ''/tmp/a.pdf'' = Inr ?s1" by simp
  from a b c r1 first r2 show ?thesis by (intro conjI)
qed

subsection \<open>C2: page ranges that do not parse\<close>

lemma py_int_error: "py_int s = Inl x \<Longrightarrow> \<exists>m. x = ValueError m"
  by (auto simp: py_int_def Let_def split: if_splits)

lemma unpack2_error: "unpack2 ps = Inl x \<Longrightarrow> \<exists>m. x = ValueError m"
  by (induction ps rule: unpack2.induct) (auto split: sum.splits dest: py_int_error)

lemma parse_range_error: "parse_range r = Inl x \<Longrightarrow> \<exists>m. x = ValueError m"
  unfolding parse_range_def by (rule unpack2_error)

lemma unpack2_ok_iff:
  "(unpack2 ps = Inr (a, b)) = (\<exists>p q. ps = [p, q] \<and> py_int p = Inr a \<and> py_int q = Inr b)"
  by (induction ps rule: unpack2.induct) (auto split: sum.splits)

lemma parse_range_ok_iff:
  "(parse_range r = Inr (a, b)) =
   (\<exists>p q. split_on (CHR ''-'') r = [p, q] \<and> py_int p = Inr a \<and> py_int q = Inr b)"
  unfolding parse_range_def by (rule unpack2_ok_iff)

lemma read_pdf_content_bad_range:
  assumes "r \<noteq> ''all''" and "parse_range r = Inl x"
  shows "read_pdf_content pages r =
     Inr (Inl \<lparr>status = 400, body = error_body bad_range_message\<rparr>)"
proof -
  obtain m where "x = ValueError m" using parse_range_error [OF assms(2)] by blast
  with assms show ?thesis by (simp add: read_pdf_content_def)
qed

lemma read_pdf_content_range:
  assumes "r \<noteq> ''all''" and "parse_range r = Inr (a, b)"
  shows "read_pdf_content pages r =
     (case page_texts (py_slice pages (a - 1) b) of
        Inl x \<Rightarrow> Inl x
      | Inr ts \<Rightarrow> Inr (Inr (join [CHR 0x0A] ts)))"
  using assms by (simp add: read_pdf_content_def)

lemma process_pdf_try_accepted:
  assumes "accepted_upload e req pages" and "form req ''page_range'' = Some r"
  shows "process_pdf_try e req =
     (case read_pdf_content pages r of
        Inl x \<Rightarrow> Inl x
      | Inr (Inl resp) \<Rightarrow> Inr resp
      | Inr (Inr text) \<Rightarrow>
          (case question_params req of
             None \<Rightarrow> Inr \<lparr>status = 400, body = error_body ''Invalid question parameters''\<rparr>
           | Some (num_questions, question_type) \<Rightarrow>
               (case generated e of
                  Inl x \<Rightarrow> Inl x
                | Inr questions \<Rightarrow>
                    Inr \<lparr>status = 200,
                         body = PDict
                           [(''questions'', PStr questions),
                            (''text'', PStr (take 1000 text)),
                            (''metadata'', PDict
                               [(''pages_processed'',
                                 if r \<noteq> ''all''
                                 then PInt (int (length (split_on (CHR ''-'') r)))
                                 else PStr ''all''),
                                (''word_count'', PInt (int (length (split_ws text)))),
                                (''filename'',
                                 PStr (secure_filename e (filename (the (files req ''pdf'')))))])]\<rparr>)))"
proof -
  from assms(1) obtain upl where f: "files req ''pdf'' = Some upl"
    and f1: "filename upl \<noteq> []" and f2: "endswith (lower (filename upl)) ''.pdf''"
    and f3: "content upl \<noteq> []" and f4: "pdf_reader e (content upl) = Inr pages"
    by (auto simp: accepted_upload_def split: option.splits)
  show ?thesis
    unfolding process_pdf_try_def
    by (simp only: f f1 f2 f3 f4 assms(2) option.case if_False if_True not_True_eq_False
        not_False_eq_True sum.case Let_def option.sel)
qed

lemma process_pdf_try_range_not_rejected:
  assumes "accepted_upload e req pages" and "form req ''page_range'' = Some r"
    and "r \<noteq> ''all''" and "parse_range r = Inr (a, b)"
    and "process_pdf_try e req = Inr resp"
  shows "body resp \<noteq> error_body bad_range_message"
  using assms(5)
  unfolding process_pdf_try_accepted [OF assms(1,2)] read_pdf_content_range [OF assms(3,4)]
  by (auto simp: error_body_def bad_range_message_def split: sum.splits option.splits)

lemma process_pdf_range_not_rejected:
  assumes "accepted_upload e req pages" and "form req ''page_range'' = Some r"
    and "r \<noteq> ''all''" and "parse_range r = Inr (a, b)"
  shows "body (process_pdf e req) \<noteq> error_body bad_range_message"
proof (cases "process_pdf_try e req")
  case (Inl x)
  then show ?thesis
    by (simp add: process_pdf_def error_body_def bad_range_message_def)
next
  case (Inr resp)
  with process_pdf_try_range_not_rejected [OF assms Inr] show ?thesis
    by (simp add: process_pdf_def)
qed

lemma process_pdf_range_accepted:
  assumes "accepted_upload e req pages" and "form req ''page_range'' = Some r"
    and "r \<noteq> ''all''" and "parse_range r = Inr (a, b)"
    and "page_texts (py_slice pages (a - 1) b) = Inr ts"
    and "question_params req = Some (n, qt)" and "generated e = Inr qs"
  shows "process_pdf e req =
     \<lparr>status = 200,
      body = PDict
        [(''questions'', PStr qs),
         (''text'', PStr (take 1000 (join [CHR 0x0A] ts))),
         (''metadata'', PDict
            [(''pages_processed'', PInt 2),
             (''word_count'', PInt (int (length (split_ws (join [CHR 0x0A] ts))))),
             (''filename'', PStr (secure_filename e (filename (the (files req ''pdf'')))))])]\<rparr>"
proof -
  have two: "length (split_on (CHR ''-'') r) = 2"
    using assms(4) by (auto simp: parse_range_ok_iff)
  have rd: "read_pdf_content pages r = Inr (Inr (join [CHR 0x0A] ts))"
    by (simp add: read_pdf_content_range [OF assms(3,4)] assms(5))
  have "process_pdf_try e req = Inr
     \<lparr>status = 200,
      body = PDict
        [(''questions'', PStr qs),
         (''text'', PStr (take 1000 (join [CHR 0x0A] ts))),
         (''metadata'', PDict
            [(''pages_processed'', PInt 2),
             (''word_count'', PInt (int (length (split_ws (join [CHR 0x0A] ts))))),
             (''filename'', PStr (secure_filename e (filename (the (files req ''pdf'')))))])]\<rparr>"
    unfolding process_pdf_try_accepted [OF assms(1,2)] rd
    using assms(3) by (simp add: assms(6,7) two)
  then show ?thesis by (simp add: process_pdf_def)
qed

text \<open>
  C2, as the code has it. For an upload that passed the file checks and was opened, and a
  page range other than \<^verbatim>\<open>all\<close>: if the range is not exactly two dash-separated parts that
  \<^verbatim>\<open>int\<close> accepts, the answer is the 400 validation error (never a 500). If it is two such
  parts, the range is accepted whatever the order or size of the two numbers: the answer
  never is the range error, and when the pages of the slice \<^verbatim>\<open>pages[a-1:b]\<close> are read, the
  question parameters are valid and the model replies, the answer is the 200 response
  built from that slice.
\<close>

theorem invalid_range_400:
  assumes "accepted_upload e req pages" and "form req ''page_range'' = Some r"
    and "r \<noteq> ''all''"
  shows "(\<not> (\<exists>p q a b. split_on (CHR ''-'') r = [p, q] \<and> py_int p = Inr a \<and> py_int q = Inr b) \<longrightarrow>
            process_pdf e req = \<lparr>status = 400, body = error_body bad_range_message\<rparr>) \<and>
         (\<forall>p q a b. split_on (CHR ''-'') r = [p, q] \<and> py_int p = Inr a \<and> py_int q = Inr b \<longrightarrow>
            body (process_pdf e req) \<noteq> error_body bad_range_message) \<and>
         (\<forall>p q a b ts n qt qs.
            split_on (CHR ''-'') r = [p, q] \<and> py_int p = Inr a \<and> py_int q = Inr b \<and>
            page_texts (py_slice pages (a - 1) b) = Inr ts \<and>
            question_params req = Some (n, qt) \<and> generated e = Inr qs \<longrightarrow>
            process_pdf e req =
              \<lparr>status = 200,
               body = PDict
                 [(''questions'', PStr qs),
                  (''text'', PStr (take 1000 (join [CHR 0x0A] ts))),
                  (''metadata'', PDict
                     [(''pages_processed'', PInt 2),
                      (''word_count'', PInt (int (length (split_ws (join [CHR 0x0A] ts))))),
                      (''filename'',
                       PStr (secure_filename e (filename (the (files req ''pdf'')))))])]\<rparr>)"
proof (intro conjI allI impI)
  assume bad: "\<not> (\<exists>p q a b. split_on (CHR ''-'') r = [p, q] \<and> py_int p = Inr a \<and> py_int q = Inr b)"
  have "\<exists>x. parse_range r = Inl x"
  proof (cases "parse_range r")
    case (Inl x)
    then show ?thesis by blast
  next
    case (Inr ab)
    obtain a b where "ab = (a, b)" by (cases ab)
    with Inr have "parse_range r = Inr (a, b)" by simp
    then have "\<exists>p q. split_on (CHR ''-'') r = [p, q] \<and> py_int p = Inr a \<and> py_int q = Inr b"
      by (simp only: parse_range_ok_iff)
    with bad show ?thesis by blast
  qed
  then obtain x where "parse_range r = Inl x" by blast
  then have "read_pdf_content pages r =
     Inr (Inl \<lparr>status = 400, body = error_body bad_range_message\<rparr>)"
    by (rule read_pdf_content_bad_range [OF assms(3)])
  then have "process_pdf_try e req = Inr \<lparr>status = 400, body = error_body bad_range_message\<rparr>"
    by (simp add: process_pdf_try_accepted [OF assms(1,2)])
  then show "process_pdf e req = \<lparr>status = 400, body = error_body bad_range_message\<rparr>"
    by (simp add: process_pdf_def)
next
  fix p q a b
  assume "split_on (CHR ''-'') r = [p, q] \<and> py_int p = Inr a \<and> py_int q = Inr b"
  then have "parse_range r = Inr (a, b)" by (auto simp: parse_range_ok_iff)
  then show "body (process_pdf e req) \<noteq> error_body bad_range_message"
    by (rule process_pdf_range_not_rejected [OF assms])
next
  fix p q a b ts n qt qs
  assume h: "split_on (CHR ''-'') r = [p, q] \<and> py_int p = Inr a \<and> py_int q = Inr b \<and>
            page_texts (py_slice pages (a - 1) b) = Inr ts \<and>
            question_params req = Some (n, qt) \<and> generated e = Inr qs"
  then have pr: "parse_range r = Inr (a, b)" by (auto simp: parse_range_ok_iff)
  from h have pt: "page_texts (py_slice pages (a - 1) b) = Inr ts"
    and qp: "question_params req = Some (n, qt)" and g: "generated e = Inr qs"
    by simp_all
  show "process_pdf e req =
              \<lparr>status = 200,
               body = PDict
                 [(''questions'', PStr qs),
                  (''text'', PStr (take 1000 (join [CHR 0x0A] ts))),
                  (''metadata'', PDict
                     [(''pages_processed'', PInt 2),
                      (''word_count'', PInt (int (length (split_ws (join [CHR 0x0A] ts))))),
                      (''filename'',
                       PStr (secure_filename e (filename (the (files req ''pdf'')))))])]\<rparr>"
    by (rule process_pdf_range_accepted [OF assms pr pt qp g])
qed

theorem inverted_range_counterexample:
  "parse_range ''5-2'' = Inr (5, 2) \<and> status (process_pdf penv0 (req0 ''5-2'')) = 200"
  by code_simp

lemma accepted_upload_req0: "accepted_upload penv0 (req0 r) pages0"
proof -
  have "endswith (lower ''Notes.PDF'') ''.pdf''" by code_simp
  then show ?thesis by (simp add: accepted_upload_def req0_def penv0_def)
qed

theorem invalid_range_400_witness:
  "accepted_upload penv0 (req0 ''abc'') pages0 \<and> form (req0 ''abc'') ''page_range'' = Some ''abc'' \<and>
   ''abc'' \<noteq> ''all'' \<and>
   \<not> (\<exists>p q a b. split_on (CHR ''-'') ''abc'' = [p, q] \<and> py_int p = Inr a \<and> py_int q = Inr b) \<and>
   process_pdf penv0 (req0 ''abc'') = \<lparr>status = 400, body = error_body bad_range_message\<rparr> \<and>
   accepted_upload penv0 (req0 ''5-2'') pages0 \<and> form (req0 ''5-2'') ''page_range'' = Some ''5-2'' \<and>
   ''5-2'' \<noteq> ''all'' \<and>
   split_on (CHR ''-'') ''5-2'' = [''5'', ''2''] \<and> py_int ''5'' = Inr 5 \<and> py_int ''2'' = Inr 2 \<and>
   page_texts (py_slice pages0 (5 - 1) 2) = Inr [] \<and>
   question_params (req0 ''5-2'') = Some (5, ''MCQ'') \<and>
   generated penv0 = Inr ''Q1) What is one?'' \<and>
   process_pdf penv0 (req0 ''5-2'') =
     \<lparr>status = 200,
      body = PDict
        [(''questions'', PStr ''Q1) What is one?''),
         (''text'', PStr []),
         (''metadata'', PDict
            [(''pages_processed'', PInt 2),
             (''word_count'', PInt 0),
             (''filename'', PStr ''Notes.PDF'')])]\<rparr>"
proof -
  have a: "accepted_upload penv0 (req0 ''abc'') pages0" by (rule accepted_upload_req0)
  have b: "form (req0 ''abc'') ''page_range'' = Some ''abc''" by (simp add: req0_def)
  have c: "''abc'' \<noteq> ''all''" by simp
  have d: "\<not> (\<exists>p q a b. split_on (CHR ''-'') ''abc'' = [p, q] \<and> py_int p = Inr a \<and>
                py_int q = Inr b)"
    by simp
  have r1: "process_pdf penv0 (req0 ''abc'') = \<lparr>status = 400, body = error_body bad_range_message\<rparr>"
    using invalid_range_400 [OF a b c, THEN conjunct1] d by (rule mp)
  have a': "accepted_upload penv0 (req0 ''5-2'') pages0" by (rule accepted_upload_req0)
  have b': "form (req0 ''5-2'') ''page_range'' = Some ''5-2''" by (simp add: req0_def)
  have c': "''5-2'' \<noteq> ''all''" by simp
  have s: "split_on (CHR ''-'') ''5-2'' = [''5'', ''2'']" by simp
  have i5: "py_int ''5'' = Inr 5" by code_simp
  have i2: "py_int ''2'' = Inr 2" by code_simp
  have pt: "page_texts (py_slice pages0 (5 - 1) 2) = Inr []" by code_simp
  have qp: "question_params (req0 ''5-2'') = Some (5, ''MCQ'')"
    by (simp add: question_params_def req0_def)
  have g: "generated penv0 = Inr ''Q1) What is one?''" by (simp add: penv0_def)
  have j: "join [CHR 0x0A] [] = []" by simp
  have fn: "secure_filename penv0 (filename (the (files (req0 ''5-2'') ''pdf''))) = ''Notes.PDF''"
    by (simp add: penv0_def req0_def)
  have w: "int (length (split_ws [])) = 0" by (simp add: split_ws_def)
  have "process_pdf penv0 (req0 ''5-2'') =
     \<lparr>status = 200,
      body = PDict
        [(''questions'', PStr ''Q1) What is one?''),
         (''text'', PStr (take 1000 (join [CHR 0x0A] []))),
         (''metadata'', PDict
            [(''pages_processed'', PInt 2),
             (''word_count'', PInt (int (length (split_ws (join [CHR 0x0A] []))))),
             (''filename'',
              PStr (secure_filename penv0 (filename (the (files (req0 ''5-2'') ''pdf'')))))])]\<rparr>"
    by (rule invalid_range_400 [OF a' b' c', THEN conjunct2, THEN conjunct2, rule_format,
          of "''5''" "''2''" 5 2 "[]" 5 "''MCQ''" "''Q1) What is one?''"])
       (intro conjI s i5 i2 pt qp g)
  then have r2: "process_pdf penv0 (req0 ''5-2'') =
     \<lparr>status = 200,
      body = PDict
        [(''questions'', PStr ''Q1) What is one?''),
         (''text'', PStr []),
         (''metadata'', PDict
            [(''pages_processed'', PInt 2),
             (''word_count'', PInt 0),
             (''filename'', PStr ''Notes.PDF'')])]\<rparr>"
    by (simp only: j fn w take.simps)
  from a b c d r1 a' b' c' s i5 i2 pt qp g r2 show ?thesis by (intro conjI)
qed

subsection \<open>C6: extraction of a valid page range\<close>

lemma page_texts_all_returned: "page_texts (map Inr ts) = Inr (map text_or_empty ts)"
  by (induction ts) simp_all

lemma py_slice_range:
  assumes "1 \<le> a" and "a \<le> b" and "b \<le> int (length xs)"
  shows "py_slice xs (a - 1) b = take (nat (b - a + 1)) (drop (nat (a - 1)) xs)"
proof -
  have lo: "slice_bound (length xs) (a - 1) = nat (a - 1)"
    using assms by (simp add: slice_bound_def)
  have hi: "slice_bound (length xs) b = nat b"
    using assms by (simp add: slice_bound_def)
  have "nat b - nat (a - 1) = nat (b - a + 1)"
    using assms by linarith
  with lo hi show ?thesis by (simp add: py_slice_def)
qed

lemma all_is_no_range: "parse_range ''all'' \<noteq> Inr (a, b)"
  by (simp add: parse_range_ok_iff)

lemma page_texts_first_raise: "page_texts (map Inr ts @ Inl x # rest) = Inl x"
  by (induction ts) simp_all

text \<open>
  C6, as the code has it. For a range \<open>a-b\<close> that parses with
  \<open>1 \<le> a \<le> b \<le> pageCount\<close> the selection is exactly the \<open>b - a + 1\<close> pages \<open>a\<close> to
  \<open>b\<close>. When \<^verbatim>\<open>extract_text()\<close> returns on each of them (\<open>ts\<close> are the values returned),
  the extracted text is those \<open>b - a + 1\<close> page texts joined by newlines, a page whose
  \<^verbatim>\<open>extract_text()\<close> returns \<open>None\<close> contributing the empty string. When
  \<^verbatim>\<open>extract_text()\<close> raises on one of them, nothing catches the exception page by page:
  the first such exception leaves \<open>extract_text_from_pdf\<close> (and nothing is cached),
  and \<open>process_pdf\<close> answers 500. The first case holds for the text \<open>process_pdf\<close>
  reads, for the body of \<open>extract_text_from_pdf\<close>, and for \<open>extract_text_from_pdf\<close>
  itself on a call its cache does not hold.
\<close>

theorem valid_range_extracts:
  assumes "parse_range r = Inr (a, b)" and "1 \<le> a" and "a \<le> b" and "b \<le> int (length pages)"
  shows "length (take (nat (b - a + 1)) (drop (nat (a - 1)) pages)) = nat (b - a + 1) \<and>
         (\<forall>ts. take (nat (b - a + 1)) (drop (nat (a - 1)) pages) = map Inr ts \<longrightarrow>
            length ts = nat (b - a + 1) \<and>
            read_pdf_content pages r = Inr (Inr (join [CHR 0x0A] (map text_or_empty ts))) \<and>
            (\<forall>open_pdf path c. open_pdf path = Inr pages \<longrightarrow>
               extract_text_body open_pdf path r =
                 Inr (join [CHR 0x0A] (map text_or_empty ts)) \<and>
               (map_of c (path, r) = None \<longrightarrow>
                  fst (extract_text_from_pdf open_pdf c path r) =
                    Inr (join [CHR 0x0A] (map text_or_empty ts))))) \<and>
         (\<forall>ts x rest.
            take (nat (b - a + 1)) (drop (nat (a - 1)) pages) = map Inr ts @ Inl x # rest \<longrightarrow>
            read_pdf_content pages r = Inl x \<and>
            (\<forall>open_pdf path c. open_pdf path = Inr pages \<longrightarrow>
               extract_text_body open_pdf path r = Inl x \<and>
               (map_of c (path, r) = None \<longrightarrow>
                  extract_text_from_pdf open_pdf c path r = (Inl x, c))) \<and>
            (\<forall>e req. accepted_upload e req pages \<and> form req ''page_range'' = Some r \<longrightarrow>
               process_pdf e req =
                 \<lparr>status = 500, body = error_body ''Failed to process PDF''\<rparr>))"
proof -
  let ?sel = "take (nat (b - a + 1)) (drop (nat (a - 1)) pages)"
  have r: "r \<noteq> ''all''" using assms(1) all_is_no_range by blast
  have sl: "py_slice pages (a - 1) b = ?sel"
    by (rule py_slice_range [OF assms(2,3,4)])
  have len: "length ?sel = nat (b - a + 1)"
    using assms(2,3,4) by simp
  have rd: "read_pdf_content pages r =
      (case page_texts ?sel of Inl x \<Rightarrow> Inl x | Inr ts \<Rightarrow> Inr (Inr (join [CHR 0x0A] ts)))"
    by (simp only: read_pdf_content_range [OF r assms(1)] sl)
  have bd: "extract_text_body open_pdf path r = map_sum id (join [CHR 0x0A]) (page_texts ?sel)"
    if "open_pdf path = Inr pages" for open_pdf path
    using that r assms(1) by (simp add: extract_text_body_def select_pages_def sl)
  show ?thesis
  proof (intro conjI allI impI)
    show "length ?sel = nat (b - a + 1)" by (rule len)
  next
    fix ts assume h: "?sel = map Inr ts"
    from len show "length ts = nat (b - a + 1)" by (simp only: h length_map)
    show "read_pdf_content pages r = Inr (Inr (join [CHR 0x0A] (map text_or_empty ts)))"
      by (simp add: rd h page_texts_all_returned)
  next
    fix ts and open_pdf :: "string \<Rightarrow> exn + page list" and path :: string and c :: cache
    assume h: "?sel = map Inr ts" and o: "open_pdf path = Inr pages"
    show "extract_text_body open_pdf path r = Inr (join [CHR 0x0A] (map text_or_empty ts))"
      by (simp add: bd [of open_pdf path, OF o] h page_texts_all_returned)
  next
    fix ts and open_pdf :: "string \<Rightarrow> exn + page list" and path :: string and c :: cache
    assume h: "?sel = map Inr ts" and o: "open_pdf path = Inr pages"
      and m: "map_of c (path, r) = None"
    have "extract_text_body open_pdf path r = Inr (join [CHR 0x0A] (map text_or_empty ts))"
      by (simp add: bd [of open_pdf path, OF o] h page_texts_all_returned)
    with m show "fst (extract_text_from_pdf open_pdf c path r) =
        Inr (join [CHR 0x0A] (map text_or_empty ts))"
      by (simp add: extract_text_from_pdf_def)
  next
    fix ts x rest assume h: "?sel = map Inr ts @ Inl x # rest"
    show "read_pdf_content pages r = Inl x"
      by (simp add: rd h page_texts_first_raise)
  next
    fix ts x rest and open_pdf :: "string \<Rightarrow> exn + page list" and path :: string and c :: cache
    assume h: "?sel = map Inr ts @ Inl x # rest" and o: "open_pdf path = Inr pages"
    show "extract_text_body open_pdf path r = Inl x"
      by (simp add: bd [of open_pdf path, OF o] h page_texts_first_raise)
  next
    fix ts x rest and open_pdf :: "string \<Rightarrow> exn + page list" and path :: string and c :: cache
    assume h: "?sel = map Inr ts @ Inl x # rest" and o: "open_pdf path = Inr pages"
      and m: "map_of c (path, r) = None"
    have "extract_text_body open_pdf path r = Inl x"
      by (simp add: bd [of open_pdf path, OF o] h page_texts_first_raise)
    with m show "extract_text_from_pdf open_pdf c path r = (Inl x, c)"
      by (simp add: extract_text_from_pdf_def)
  next
    fix ts x rest e req
    assume h: "?sel = map Inr ts @ Inl x # rest"
      and acc: "accepted_upload e req pages \<and> form req ''page_range'' = Some r"
    have "read_pdf_content pages r = Inl x"
      by (simp add: rd h page_texts_first_raise)
    then have "process_pdf_try e req = Inl x"
      using acc by (simp add: process_pdf_try_accepted [of e req pages r])
    then show "process_pdf e req = \<lparr>status = 500, body = error_body ''Failed to process PDF''\<rparr>"
      by (simp add: process_pdf_def)
  qed
qed

theorem raising_page_counterexample:
  "parse_range ''1-2'' = Inr (1, 2) \<and> (1::int) \<le> 2 \<and> 2 \<le> int (length pages1) \<and>
   read_pdf_content pages1 ''1-2'' = Inl (OtherError ''cannot decode page'') \<and>
   process_pdf penv1 (req0 ''1-2'') =
     \<lparr>status = 500, body = error_body ''Failed to process PDF''\<rparr>"
  by code_simp

theorem valid_range_extracts_witness:
  "parse_range ''2-3'' = Inr (2, 3) \<and> (1::int) \<le> 2 \<and> (2::int) \<le> 3 \<and>
   3 \<le> int (length pages0) \<and>
   take (nat (3 - 2 + 1)) (drop (nat (2 - 1)) pages0) = map Inr [None, Some ''three 3''] \<and>
   length [None, Some ''three 3''] = nat (3 - 2 + 1) \<and>
   read_pdf_content pages0 ''2-3'' = Inr (Inr (CHR 0x0A # ''three 3'')) \<and>
   fst (extract_text_from_pdf (\<lambda>path. Inr pages0) [] ''/tmp/x.pdf'' ''2-3'') =
     Inr (CHR 0x0A # ''three 3'') \<and>
   parse_range ''1-2'' = Inr (1, 2) \<and> (1::int) \<le> 1 \<and> (1::int) \<le> 2 \<and>
   2 \<le> int (length pages1) \<and>
   take (nat (2 - 1 + 1)) (drop (nat (1 - 1)) pages1) =
     map Inr [Some ''one''] @ Inl (OtherError ''cannot decode page'') # [] \<and>
   read_pdf_content pages1 ''1-2'' = Inl (OtherError ''cannot decode page'') \<and>
   extract_text_from_pdf (\<lambda>path. Inr pages1) [] ''/tmp/x.pdf'' ''1-2'' =
     (Inl (OtherError ''cannot decode page''), [])"
proof -
  have a: "parse_range ''2-3'' = Inr (2, 3)" by code_simp
  have b: "(1::int) \<le> 2" by simp
  have c: "(2::int) \<le> 3" by simp
  have d: "3 \<le> int (length pages0)" by (simp add: pages0_def)
  have e: "take (nat (3 - 2 + 1)) (drop (nat (2 - 1)) pages0) = map Inr [None, Some ''three 3'']"
    by (simp add: pages0_def)
  have j: "join [CHR 0x0A] (map text_or_empty [None, Some ''three 3'']) = CHR 0x0A # ''three 3''"
    by (simp add: text_or_empty_def)
  note v = valid_range_extracts [OF a b c d, THEN conjunct2, THEN conjunct1, rule_format, OF e]
  note v1 = v [THEN conjunct1]
  note v2 = v [THEN conjunct2, THEN conjunct1]
  note v3 = v [THEN conjunct2, THEN conjunct2, rule_format,
               of "\<lambda>path. Inr pages0" "''/tmp/x.pdf''" "[]"]
  have r2: "read_pdf_content pages0 ''2-3'' = Inr (Inr (CHR 0x0A # ''three 3''))"
    using v2 by (simp only: j)
  have "fst (extract_text_from_pdf (\<lambda>path. Inr pages0) [] ''/tmp/x.pdf'' ''2-3'') =
      Inr (join [CHR 0x0A] (map text_or_empty [None, Some ''three 3'']))"
    by (rule v3 [THEN conjunct2, rule_format]) simp_all
  then have r3: "fst (extract_text_from_pdf (\<lambda>path. Inr pages0) [] ''/tmp/x.pdf'' ''2-3'') =
      Inr (CHR 0x0A # ''three 3'')"
    by (simp only: j)
  have a': "parse_range ''1-2'' = Inr (1, 2)" by code_simp
  have b': "(1::int) \<le> 1" by simp
  have c': "(1::int) \<le> 2" by simp
  have d': "2 \<le> int (length pages1)" by (simp add: pages1_def)
  have e': "take (nat (2 - 1 + 1)) (drop (nat (1 - 1)) pages1) =
     map Inr [Some ''one''] @ Inl (OtherError ''cannot decode page'') # []"
    by (simp add: pages1_def)
  note w = valid_range_extracts [OF a' b' c' d', THEN conjunct2, THEN conjunct2, rule_format,
             OF e']
  note w1 = w [THEN conjunct1]
  note w2 = w [THEN conjunct2, THEN conjunct1, rule_format,
               of "\<lambda>path. Inr pages1" "''/tmp/x.pdf''" "[]"]
  have r5: "extract_text_from_pdf (\<lambda>path. Inr pages1) [] ''/tmp/x.pdf'' ''1-2'' =
     (Inl (OtherError ''cannot decode page''), [])"
    by (rule w2 [THEN conjunct2, rule_format]) simp_all
  from a b c d e v1 r2 r3 a' b' c' d' e' w1 r5 show ?thesis by (intro conjI)
qed

subsection \<open>C10: the \<^verbatim>\<open>pages_processed\<close> field\<close>

lemma read_pdf_content_answer:
  "read_pdf_content pages r = Inr (Inl resp) \<Longrightarrow> status resp = 400"
  by (auto simp: read_pdf_content_def split: if_splits sum.splits exn.splits prod.splits)

lemma read_pdf_content_text:
  "read_pdf_content pages r = Inr (Inr text) \<Longrightarrow> r \<noteq> ''all'' \<Longrightarrow>
   \<exists>a b. parse_range r = Inr (a, b)"
  by (auto simp: read_pdf_content_def split: if_splits sum.splits exn.splits prod.splits)

lemma parse_range_two_parts:
  "parse_range r = Inr (a, b) \<Longrightarrow> length (split_on (CHR ''-'') r) = 2"
  by (auto simp: parse_range_ok_iff)

lemma process_pdf_try_200:
  assumes "process_pdf_try e req = Inr resp" and "status resp = 200"
    and "form req ''page_range'' = Some r"
  shows "\<exists>pages text questions (upl :: upload).
     read_pdf_content pages r = Inr (Inr text) \<and>
     resp = \<lparr>status = 200,
             body = PDict
               [(''questions'', PStr questions),
                (''text'', PStr (take 1000 text)),
                (''metadata'', PDict
                   [(''pages_processed'',
                     if r \<noteq> ''all''
                     then PInt (int (length (split_on (CHR ''-'') r)))
                     else PStr ''all''),
                    (''word_count'', PInt (int (length (split_ws text)))),
                    (''filename'', PStr (secure_filename e (filename upl)))])]\<rparr>"
proof (cases "files req ''pdf''")
  case None
  with assms(1) have "status resp = 400" by (auto simp: process_pdf_try_def)
  with assms(2) show ?thesis by simp
next
  case (Some upl)
  show ?thesis
  proof (cases "filename upl = [] \<or> \<not> endswith (lower (filename upl)) ''.pdf'' \<or> content upl = []")
    case True
    with Some assms(1) have "status resp = 400"
      by (auto simp: process_pdf_try_def split: if_splits)
    with assms(2) show ?thesis by simp
  next
    case False
    show ?thesis
    proof (cases "pdf_reader e (content upl)")
      case (Inl x)
      with Some False assms(1) show ?thesis by (simp add: process_pdf_try_def)
    next
      case (Inr pages)
      with Some False have acc: "accepted_upload e req pages"
        by (simp add: accepted_upload_def)
      have fn: "the (files req ''pdf'') = upl" using Some by simp
      show ?thesis
      proof (cases "read_pdf_content pages r")
        case (Inl x)
        with assms(1) show ?thesis
          by (simp add: process_pdf_try_accepted [OF acc assms(3)])
      next
        case outer: (Inr res)
        show ?thesis
        proof (cases res)
          case (Inl answer)
          with outer assms(1) have "resp = answer"
            by (simp add: process_pdf_try_accepted [OF acc assms(3)])
          moreover from outer Inl have "status answer = 400"
            by (auto dest: read_pdf_content_answer)
          ultimately show ?thesis using assms(2) by simp
        next
          case (Inr tx)
          with outer have rd: "read_pdf_content pages r = Inr (Inr tx)" by simp
          from assms(1,2) have "\<exists>questions.
             resp = \<lparr>status = 200,
               body = PDict
                 [(''questions'', PStr questions),
                  (''text'', PStr (take 1000 tx)),
                  (''metadata'', PDict
                     [(''pages_processed'',
                       if r \<noteq> ''all''
                       then PInt (int (length (split_on (CHR ''-'') r)))
                       else PStr ''all''),
                      (''word_count'', PInt (int (length (split_ws tx)))),
                      (''filename'', PStr (secure_filename e (filename upl)))])]\<rparr>"
            unfolding process_pdf_try_accepted [OF acc assms(3)] rd fn
            by (auto split: option.splits sum.splits)
          then obtain questions where resp: "resp = \<lparr>status = 200,
               body = PDict
                 [(''questions'', PStr questions),
                  (''text'', PStr (take 1000 tx)),
                  (''metadata'', PDict
                     [(''pages_processed'',
                       if r \<noteq> ''all''
                       then PInt (int (length (split_on (CHR ''-'') r)))
                       else PStr ''all''),
                      (''word_count'', PInt (int (length (split_ws tx)))),
                      (''filename'', PStr (secure_filename e (filename upl)))])]\<rparr>" ..
          show ?thesis
            by (rule exI [of _ pages], rule exI [of _ tx], rule exI [of _ questions],
                rule exI [of _ upl], intro conjI rd resp)
        qed
      qed
    qed
  qed
qed

text \<open>
  C10. Whenever \<open>process_pdf\<close> answers 200 for a page range other than \<^verbatim>\<open>all\<close>, the
  range string has exactly two dash-separated parts and the metadata field
  \<^verbatim>\<open>pages_processed\<close> is that number of parts, 2, whatever number of pages the range
  selects.
\<close>

theorem pages_processed_counts_parts:
  assumes "status (process_pdf e req) = 200" and "form req ''page_range'' = Some r"
    and "r \<noteq> ''all''"
  shows "length (split_on (CHR ''-'') r) = 2 \<and>
         (\<exists>questions text word_count name.
            body (process_pdf e req) =
              PDict [(''questions'', questions), (''text'', text),
                     (''metadata'', PDict [(''pages_processed'', PInt 2),
                                           (''word_count'', word_count),
                                           (''filename'', name)])])"
proof (cases "process_pdf_try e req")
  case (Inl x)
  with assms(1) show ?thesis by (simp add: process_pdf_def)
next
  case (Inr resp)
  with assms(1) have st: "status resp = 200" and eq: "process_pdf e req = resp"
    by (simp_all add: process_pdf_def)
  from process_pdf_try_200 [OF Inr st assms(2)]
  obtain pages tx questions and upl :: upload where
    rd: "read_pdf_content pages r = Inr (Inr tx)" and
    resp0: "resp = \<lparr>status = 200,
             body = PDict
               [(''questions'', PStr questions),
                (''text'', PStr (take 1000 tx)),
                (''metadata'', PDict
                   [(''pages_processed'',
                     if r \<noteq> ''all''
                     then PInt (int (length (split_on (CHR ''-'') r)))
                     else PStr ''all''),
                    (''word_count'', PInt (int (length (split_ws tx)))),
                    (''filename'', PStr (secure_filename e (filename upl)))])]\<rparr>"
    by (elim exE conjE)
  have resp: "resp = \<lparr>status = 200,
             body = PDict
               [(''questions'', PStr questions),
                (''text'', PStr (take 1000 tx)),
                (''metadata'', PDict
                   [(''pages_processed'', PInt (int (length (split_on (CHR ''-'') r)))),
                    (''word_count'', PInt (int (length (split_ws tx)))),
                    (''filename'', PStr (secure_filename e (filename upl)))])]\<rparr>"
    using resp0 assms(3) by (simp only: if_True not_False_eq_True)
  obtain a b where "parse_range r = Inr (a, b)"
    using read_pdf_content_text [OF rd assms(3)] by blast
  then have two: "length (split_on (CHR ''-'') r) = 2" by (rule parse_range_two_parts)
  have "body (process_pdf e req) =
      PDict [(''questions'', PStr questions), (''text'', PStr (take 1000 tx)),
             (''metadata'', PDict [(''pages_processed'', PInt 2),
                                   (''word_count'', PInt (int (length (split_ws tx)))),
                                   (''filename'', PStr (secure_filename e (filename upl)))])]"
    by (simp add: eq resp two)
  then have "\<exists>questions text word_count name.
            body (process_pdf e req) =
              PDict [(''questions'', questions), (''text'', text),
                     (''metadata'', PDict [(''pages_processed'', PInt 2),
                                           (''word_count'', word_count),
                                           (''filename'', name)])]"
    by (intro exI)
  with two show ?thesis by (rule conjI)
qed

theorem pages_processed_counts_parts_witness:
  "status (process_pdf penv0 (req0 ''1-3'')) = 200 \<and>
   form (req0 ''1-3'') ''page_range'' = Some ''1-3'' \<and> ''1-3'' \<noteq> ''all'' \<and>
   parse_range ''1-3'' = Inr (1, 3) \<and> length (py_slice pages0 (1 - 1) 3) = 3 \<and>
   length (split_on (CHR ''-'') ''1-3'') = 2 \<and>
   (\<exists>questions text word_count name.
      body (process_pdf penv0 (req0 ''1-3'')) =
        PDict [(''questions'', questions), (''text'', text),
               (''metadata'', PDict [(''pages_processed'', PInt 2),
                                     (''word_count'', word_count),
                                     (''filename'', name)])])"
proof -
  have a: "status (process_pdf penv0 (req0 ''1-3'')) = 200" by code_simp
  have b: "form (req0 ''1-3'') ''page_range'' = Some ''1-3''" by (simp add: req0_def)
  have c: "''1-3'' \<noteq> ''all''" by simp
  have d: "parse_range ''1-3'' = Inr (1, 3)" by code_simp
  have f: "length (py_slice pages0 (1 - 1) 3) = 3" by code_simp
  note v = pages_processed_counts_parts [OF a b c]
  from a b c d f v [THEN conjunct1] v [THEN conjunct2] show ?thesis by (intro conjI)
qed

end
